theory Spec2Isabelle
  imports Main "HOL-Library.AList"
begin

section \<open>Values and dictionaries\<close>

text \<open>
  The Python values that travel through the attribute mapper and the user resolver are
  either \<^verbatim>\<open>None\<close> or a string (request headers are strings). A Python \<^verbatim>\<open>dict\<close> is an
  association list with insertion order: assigning to an existing key keeps its position,
  assigning to a new key appends it, which is what \<^const>\<open>AList.update\<close> does.
\<close>

datatype pyval = PyNone | PyStr string

type_synonym pydict = "(string \<times> pyval) list"

text \<open>Truth value testing of \<^verbatim>\<open>not value\<close>: \<^verbatim>\<open>None\<close> and the empty string are falsy.\<close>

fun py_not :: "pyval \<Rightarrow> bool" where
  "py_not PyNone = True"
| "py_not (PyStr s) = (s = [])"

text \<open>\<^verbatim>\<open>meta.get(header, None)\<close> on the header dictionary \<^verbatim>\<open>request.META\<close>.\<close>

definition meta_get :: "(string \<rightharpoonup> string) \<Rightarrow> string \<Rightarrow> pyval" where
  "meta_get meta hdr = (case meta hdr of None \<Rightarrow> PyNone | Some s \<Rightarrow> PyStr s)"

text \<open>\<^verbatim>\<open>d.update(**params)\<close>: every item of \<open>params\<close> is assigned into \<open>d\<close>, in order.\<close>

definition dict_update :: "pydict \<Rightarrow> pydict \<Rightarrow> pydict" where
  "dict_update d params = fold (\<lambda>(k, v). AList.update k v) params d"

section \<open>Data model\<close>

text \<open>
  A user object: its primary key, its instance dictionary (field name to value, the
  dictionary behind \<^verbatim>\<open>getattr(user, k)\<close> and \<^verbatim>\<open>user.__dict__\<close>) and whether its password is
  usable (\<^verbatim>\<open>set_unusable_password\<close> clears it). The user store is the list of saved rows.
\<close>

record user =
  pk :: nat
  attrs :: pydict
  usable_password :: bool

datatype ruser = AnonymousUser | AuthUser user

text \<open>Session values: the logout flag is a boolean, the parsed attributes a dictionary.\<close>

datatype sval = SBool bool | SDict pydict

text \<open>
  The request: \<open>req_user\<close> is \<open>None\<close> when the request has no \<^verbatim>\<open>user\<close> attribute
  (\<^verbatim>\<open>hasattr(request, 'user')\<close> is false).
\<close>

record request =
  req_user :: "ruser option"
  session :: "string \<rightharpoonup> sval"
  META :: "string \<rightharpoonup> string"

datatype error =
    ImproperlyConfigured
  | ShibbolethValidationError pydict
  | AttributeError string
  | UnboundLocalError
  | DoesNotExist
  | MultipleObjectsReturned
  | IntegrityError

text \<open>
  The calls a request makes, in order. The trace is bookkeeping of the model: it records
  which steps of the source ran, so that "this step never runs" and "this step runs before
  that one" are statements about a value.
\<close>

datatype event =
    SessionPop string
  | RemoveInvalidUser
  | ParseAttributes
  | SessionSet string sval
  | Authenticate string pydict
  | SetupUser string pydict
  | GetOrCreate string pydict
  | Get string
  | SetUnusablePassword nat
  | Save nat
  | ConfigureUser nat
  | UpdateUserParams nat pydict
  | Login nat
  | MakeProfile nat
  | SetupSession

record world =
  request :: request
  store :: "user list"
  trace :: "event list"

text \<open>
  What the source takes from outside the two modules: the settings of
  \<^verbatim>\<open>shibboleth.app_settings\<close> (\<open>SHIB_ATTRIBUTE_MAP\<close>, a dictionary from header name to
  \<^verbatim>\<open>(required, name)\<close>, in its iteration order; \<open>LOGOUT_SESSION_KEY\<close>; \<open>header\<close>, the
  remote user header), and the methods inherited from Django's \<^verbatim>\<open>RemoteUserMiddleware\<close> and
  \<^verbatim>\<open>RemoteUserBackend\<close> or from \<^verbatim>\<open>django.contrib.auth\<close>, which a deployment may override.
  Of the user model: the names of its fields, the default value of each field, and the
  fields declared \<^verbatim>\<open>null=True\<close> (\<open>nullable\<close>); every other column is \<^verbatim>\<open>NOT NULL\<close>.
\<close>

record env =
  SHIB_ATTRIBUTE_MAP :: "(string \<times> bool \<times> string) list"
  LOGOUT_SESSION_KEY :: string
  header :: string
  mw_clean_username :: "string \<Rightarrow> request \<Rightarrow> string"
  remove_invalid_user :: "request \<Rightarrow> request"
  login :: "request \<Rightarrow> user \<Rightarrow> request"
  create_unknown_user :: bool
  field_names :: "string list"
  field_defaults :: pydict
  nullable :: "string list"
  clean_username :: "string \<Rightarrow> string"
  configure_user :: "request \<Rightarrow> user \<Rightarrow> user"
  user_can_authenticate :: "user \<Rightarrow> bool"

definition log_event :: "event \<Rightarrow> world \<Rightarrow> world" where
  "log_event ev w = w\<lparr>trace := trace w @ [ev]\<rparr>"

section \<open>Attribute mapper: \<^verbatim>\<open>parse_attributes\<close> (middleware.py, lines 100-116)\<close>

text \<open>
  The loop over \<^verbatim>\<open>SHIB_ATTRIBUTE_MAP.items()\<close>, with the two variables it updates,
  \<^verbatim>\<open>shib_attrs\<close> and \<^verbatim>\<open>error\<close>, as the accumulator.
\<close>

fun parse_loop ::
  "(string \<rightharpoonup> string) \<Rightarrow> (string \<times> bool \<times> string) list \<Rightarrow> pydict \<times> bool \<Rightarrow> pydict \<times> bool"
where
  "parse_loop meta [] acc = acc"
| "parse_loop meta ((hdr, required, name) # rest) (shib_attrs, err) =
     (let val = meta_get meta hdr;
          shib_attrs' = AList.update name val shib_attrs;
          err' = (if py_not val \<or> val = PyStr [] then (if required then True else err)
                  else err)
      in parse_loop meta rest (shib_attrs', err'))"

definition parse_attributes :: "env \<Rightarrow> request \<Rightarrow> pydict \<times> bool" where
  "parse_attributes e rq = parse_loop (META rq) (SHIB_ATTRIBUTE_MAP e) ([], False)"

text \<open>A header value counts as absent when the header is missing or holds the empty string.\<close>

definition absent :: "(string \<rightharpoonup> string) \<Rightarrow> string \<Rightarrow> bool" where
  "absent meta hdr = (meta hdr = None \<or> meta hdr = Some [])"

section \<open>User store\<close>

text \<open>
  The user store is Django's model manager over the database table of the user model,
  outside the two modules; what the backend relies on is modelled here.
  \<^verbatim>\<open>objects.get(username=name)\<close> returns the one row with that username and raises
  \<^verbatim>\<open>DoesNotExist\<close> or \<^verbatim>\<open>MultipleObjectsReturned\<close> otherwise.
\<close>

definition has_username :: "string \<Rightarrow> user \<Rightarrow> bool" where
  "has_username name u = (map_of (attrs u) ''username'' = Some (PyStr name))"

definition objects_get :: "string \<Rightarrow> user list \<Rightarrow> error + user" where
  "objects_get name rows =
     (case filter (has_username name) rows of
        [] \<Rightarrow> Inl DoesNotExist
      | [u] \<Rightarrow> Inr u
      | _ \<Rightarrow> Inl MultipleObjectsReturned)"

text \<open>
  The constraints of the table. A row is refused, with \<^verbatim>\<open>IntegrityError\<close>, when it holds
  \<^verbatim>\<open>None\<close> in a column that is \<^verbatim>\<open>NOT NULL\<close>, or when another row already has its username
  (the username is \<^verbatim>\<open>UNIQUE\<close>). \<open>others\<close> are the rows the new or updated row is checked
  against.
\<close>

definition null_violation :: "env \<Rightarrow> user \<Rightarrow> bool" where
  "null_violation e u = list_ex (\<lambda>(k, v). v = PyNone \<and> k \<notin> set (nullable e)) (attrs u)"

definition unique_violation :: "user \<Rightarrow> user list \<Rightarrow> bool" where
  "unique_violation u others =
     (case map_of (attrs u) ''username'' of
        None \<Rightarrow> False
      | Some v \<Rightarrow> list_ex (\<lambda>r. map_of (attrs r) ''username'' = Some v) others)"

definition violates :: "env \<Rightarrow> user \<Rightarrow> user list \<Rightarrow> bool" where
  "violates e u others = (null_violation e u \<or> unique_violation u others)"

definition fresh_pk :: "user list \<Rightarrow> nat" where
  "fresh_pk rows = Suc (fold max (map pk rows) 0)"

text \<open>
  \<^verbatim>\<open>objects.create(**params)\<close>: a new object whose fields hold their defaults, overwritten
  by \<open>params\<close>, inserted under a new primary key, unless the table refuses the row.
\<close>

definition new_row :: "env \<Rightarrow> pydict \<Rightarrow> user list \<Rightarrow> user" where
  "new_row e params rows =
     \<lparr>pk = fresh_pk rows, attrs = dict_update (field_defaults e) params, usable_password = True\<rparr>"

definition objects_create :: "env \<Rightarrow> pydict \<Rightarrow> user list \<Rightarrow> error + user \<times> user list" where
  "objects_create e params rows =
     (let u = new_row e params rows
      in if violates e u rows then Inl IntegrityError else Inr (u, rows @ [u]))"

text \<open>
  \<^verbatim>\<open>get_or_create(username=name, defaults=d)\<close> returns the row found and \<^verbatim>\<open>False\<close>; on
  \<^verbatim>\<open>DoesNotExist\<close> it creates a row from the lookup parameters updated with the defaults (the
  defaults win on a common key) and returns it with \<^verbatim>\<open>True\<close>. When the creation raises
  \<^verbatim>\<open>IntegrityError\<close> it looks the name up once more and, still not finding it, raises the
  \<^verbatim>\<open>IntegrityError\<close> again; nothing has been created then.
\<close>

definition objects_get_or_create ::
  "env \<Rightarrow> string \<Rightarrow> pydict \<Rightarrow> user list \<Rightarrow> (error + user \<times> bool) \<times> user list"
where
  "objects_get_or_create e name defaults rows =
     (case objects_get name rows of
        Inr u \<Rightarrow> (Inr (u, False), rows)
      | Inl DoesNotExist \<Rightarrow>
          (case objects_create e (dict_update [(''username'', PyStr name)] defaults) rows of
             Inr (u, rows') \<Rightarrow> (Inr (u, True), rows')
           | Inl err \<Rightarrow>
               (case objects_get name rows of
                  Inr u \<Rightarrow> (Inr (u, False), rows)
                | Inl DoesNotExist \<Rightarrow> (Inl err, rows)
                | Inl err' \<Rightarrow> (Inl err', rows)))
      | Inl err \<Rightarrow> (Inl err, rows))"

text \<open>
  \<^verbatim>\<open>user.save()\<close> writes the object over the row with its primary key, or inserts it when
  there is no such row (\<open>write_row\<close>). The table checks the row against the other rows and
  refuses it with \<^verbatim>\<open>IntegrityError\<close>; nothing is written then.
\<close>

definition write_row :: "user \<Rightarrow> user list \<Rightarrow> user list" where
  "write_row u rows =
     (if pk u \<in> set (map pk rows) then map (\<lambda>r. if pk r = pk u then u else r) rows
      else rows @ [u])"

definition save_row :: "env \<Rightarrow> user \<Rightarrow> user list \<Rightarrow> error + user list" where
  "save_row e u rows =
     (if violates e u (filter (\<lambda>r. pk r \<noteq> pk u) rows) then Inl IntegrityError
      else Inr (write_row u rows))"

definition user_save :: "env \<Rightarrow> user \<Rightarrow> world \<Rightarrow> (error + unit) \<times> world" where
  "user_save e u w0 =
     (let w = log_event (Save (pk u)) w0 in
      case save_row e u (store w) of
        Inl er \<Rightarrow> (Inl er, w)
      | Inr rows \<Rightarrow> (Inr (), w\<lparr>store := rows\<rparr>))"

section \<open>User resolver (backends.py)\<close>

text \<open>\<^verbatim>\<open>getattr(user, k)\<close> raises \<^verbatim>\<open>AttributeError\<close> when the object has no such attribute.\<close>

definition getattr :: "user \<Rightarrow> string \<Rightarrow> error + pyval" where
  "getattr u k = (case map_of (attrs u) k of None \<Rightarrow> Inl (AttributeError k) | Some v \<Rightarrow> Inr v)"

text \<open>The list \<^verbatim>\<open>[getattr(user, k) == v for k, v in params.items()]\<close> (line 85).\<close>

fun compare_params :: "user \<Rightarrow> pydict \<Rightarrow> error + bool list" where
  "compare_params u [] = Inr []"
| "compare_params u ((k, v) # ps) =
     (case getattr u k of
        Inl er \<Rightarrow> Inl er
      | Inr cur \<Rightarrow>
          (case compare_params u ps of
             Inl er \<Rightarrow> Inl er
           | Inr bs \<Rightarrow> Inr ((cur = v) # bs)))"

text \<open>\<^verbatim>\<open>min\<close> of a non-empty list; on booleans \<^verbatim>\<open>False < True\<close>.\<close>

definition py_min :: "bool list \<Rightarrow> bool" where
  "py_min bs = fold min (tl bs) (hd bs)"

text \<open>
  \<^verbatim>\<open>update_user_params\<close> (lines 77-87). It changes the user object in place; the model
  returns the object as it is afterwards. An error of \<^verbatim>\<open>save\<close> is not caught.
\<close>

definition update_user_params ::
  "env \<Rightarrow> user \<Rightarrow> pydict \<Rightarrow> world \<Rightarrow> (error + user) \<times> world"
where
  "update_user_params e u params w0 =
     (let w = log_event (UpdateUserParams (pk u) params) w0 in
      if length params > 0 then
        (case compare_params u params of
           Inl er \<Rightarrow> (Inl er, w)
         | Inr bs \<Rightarrow>
             if \<not> py_min bs then
               (let u' = u\<lparr>attrs := dict_update (attrs u) params\<rparr>
                in case user_save e u' w of
                     (Inl er, w') \<Rightarrow> (Inl er, w')
                   | (Inr _, w') \<Rightarrow> (Inr u', w'))
             else (Inr u, w))
      else (Inr u, w))"

text \<open>\<^verbatim>\<open>handle_created_user\<close> (lines 66-76).\<close>

definition handle_created_user :: "env \<Rightarrow> user \<Rightarrow> world \<Rightarrow> (error + user) \<times> world" where
  "handle_created_user e u w =
     (let u1 = u\<lparr>usable_password := False\<rparr>;
          w1 = log_event (SetUnusablePassword (pk u1)) w
      in case user_save e u1 w1 of
           (Inl er, w2) \<Rightarrow> (Inl er, w2)
         | (Inr _, w2) \<Rightarrow>
             (let w3 = log_event (ConfigureUser (pk u1)) w2
              in (Inr (configure_user e (request w3) u1), w3)))"

text \<open>\<^verbatim>\<open>setup_user\<close> (lines 44-63); \<open>None\<close> is Python's \<^verbatim>\<open>None\<close>.\<close>

definition setup_user :: "env \<Rightarrow> string \<Rightarrow> pydict \<Rightarrow> world \<Rightarrow> (error + user option) \<times> world" where
  "setup_user e username defaults w0 =
     (let w = log_event (SetupUser username defaults) w0 in
      if create_unknown_user e then
        (let w1 = log_event (GetOrCreate username defaults) w in
         case objects_get_or_create e username defaults (store w1) of
           (Inl er, rows) \<Rightarrow> (Inl er, w1\<lparr>store := rows\<rparr>)
         | (Inr (u, created), rows) \<Rightarrow>
             (let w2 = w1\<lparr>store := rows\<rparr> in
              if created then
                (case handle_created_user e u w2 of
                   (Inl er, w3) \<Rightarrow> (Inl er, w3)
                 | (Inr u', w3) \<Rightarrow> (Inr (Some u'), w3))
              else (Inr (Some u), w2)))
      else
        (let w1 = log_event (Get username) w in
         case objects_get username (store w1) of
           Inl DoesNotExist \<Rightarrow> (Inr None, w1)
         | Inl er \<Rightarrow> (Inl er, w1)
         | Inr u \<Rightarrow> (Inr (Some u), w1)))"

text \<open>
  The dictionary comprehension of line 36,
  \<^verbatim>\<open>dict([(k, shib_meta[k]) for k in field_names if k in shib_meta])\<close>.
\<close>

definition shib_user_params :: "string list \<Rightarrow> pydict \<Rightarrow> pydict" where
  "shib_user_params fns shib_meta =
     dict_update [] (List.map_filter (\<lambda>k. map_option (Pair k) (map_of shib_meta k)) fns)"

text \<open>
  \<^verbatim>\<open>authenticate\<close> (lines 20-40). The loop of line 35 assigns \<^verbatim>\<open>shib_user_params\<close> once per
  field name, always to the same value; with no field name the variable is unbound when
  line 37 reads it.
\<close>

definition authenticate ::
  "env \<Rightarrow> string \<Rightarrow> pydict \<Rightarrow> world \<Rightarrow> (error + user option) \<times> world"
where
  "authenticate e remote_user shib_meta w0 =
     (let w = log_event (Authenticate remote_user shib_meta) w0 in
      if remote_user = [] then (Inr None, w)
      else
        (let username = clean_username e remote_user in
         if field_names e = [] then (Inl UnboundLocalError, w)
         else
           (let params = shib_user_params (field_names e) shib_meta in
            case setup_user e username params w of
              (Inl er, w1) \<Rightarrow> (Inl er, w1)
            | (Inr None, w1) \<Rightarrow> (Inr None, w1)
            | (Inr (Some u), w1) \<Rightarrow>
                (case update_user_params e u params w1 of
                   (Inl er, w2) \<Rightarrow> (Inl er, w2)
                 | (Inr u', w2) \<Rightarrow>
                     (Inr (if user_can_authenticate e u' then Some u' else None), w2)))))"

section \<open>Authentication orchestrator: \<^verbatim>\<open>process_request\<close> (middleware.py, lines 16-82)\<close>

definition session_pop :: "string \<Rightarrow> world \<Rightarrow> world" where
  "session_pop key w =
     log_event (SessionPop key) (w\<lparr>request := (request w)\<lparr>session := (session (request w))(key := None)\<rparr>\<rparr>)"

definition session_set :: "string \<Rightarrow> sval \<Rightarrow> world \<Rightarrow> world" where
  "session_set key v w =
     log_event (SessionSet key v) (w\<lparr>request := (request w)\<lparr>session := (session (request w))(key \<mapsto> v)\<rparr>\<rparr>)"

text \<open>
  Lines 62-82: parse the attributes, store them in the session, raise on a validation
  failure, otherwise authenticate and log the user in. \<^verbatim>\<open>auth.authenticate\<close> hands its
  arguments to the one configured backend; \<^verbatim>\<open>make_profile\<close> and \<^verbatim>\<open>setup_session\<close> do nothing.
\<close>

definition extract_and_login :: "env \<Rightarrow> string \<Rightarrow> world \<Rightarrow> (error + unit) \<times> world" where
  "extract_and_login e username w =
     (let (shib_meta, err) = parse_attributes e (request w);
          w1 = log_event ParseAttributes w;
          w2 = session_set ''shib'' (SDict shib_meta) w1
      in if err then (Inl (ShibbolethValidationError shib_meta), w2)
         else
           (case authenticate e username shib_meta w2 of
              (Inl er, w3) \<Rightarrow> (Inl er, w3)
            | (Inr None, w3) \<Rightarrow> (Inr (), w3)
            | (Inr (Some u), w3) \<Rightarrow>
                (let w4 = w3\<lparr>request := (request w3)\<lparr>req_user := Some (AuthUser u)\<rparr>\<rparr>;
                     w5 = log_event (Login (pk u)) (w4\<lparr>request := login e (request w4) u\<rparr>);
                     w6 = log_event (MakeProfile (pk u)) w5;
                     w7 = log_event SetupSession w6
                 in (Inr (), w7))))"

text \<open>
  Lines 53-60: \<open>True\<close> when the request is already authenticated as the user named in the
  header; otherwise the state in which the request goes on, after the stale identity has
  been removed.
\<close>

definition already_authenticated ::
  "env \<Rightarrow> string \<Rightarrow> world \<Rightarrow> (error + bool) \<times> world"
where
  "already_authenticated e username w =
     (case req_user (request w) of
        Some (AuthUser u) \<Rightarrow>
          (case getattr u ''username'' of
             Inl er \<Rightarrow> (Inl er, w)
           | Inr name \<Rightarrow>
               if name = PyStr (mw_clean_username e username (request w)) then (Inr True, w)
               else (Inr False,
                     log_event RemoveInvalidUser (w\<lparr>request := remove_invalid_user e (request w)\<rparr>)))
      | _ \<Rightarrow> (Inr False, w))"

definition process_request :: "env \<Rightarrow> world \<Rightarrow> (error + unit) \<times> world" where
  "process_request e w =
     (if req_user (request w) = None then (Inl ImproperlyConfigured, w)
      else if session (request w) (LOGOUT_SESSION_KEY e) = Some (SBool True) then (Inr (), w)
      else
        (let w1 = session_pop (LOGOUT_SESSION_KEY e) w in
         case META (request w1) (header e) of
           None \<Rightarrow> (Inr (), w1)
         | Some username \<Rightarrow>
             if username = [] then (Inr (), w1)
             else
               (case already_authenticated e username w1 of
                  (Inl er, w2) \<Rightarrow> (Inl er, w2)
                | (Inr True, w2) \<Rightarrow> (Inr (), w2)
                | (Inr False, w2) \<Rightarrow> extract_and_login e username w2)))"

section \<open>A sample deployment\<close>

text \<open>
  Concrete inputs on which the theorems below are exercised. The mapping holds three
  entries of \<^verbatim>\<open>SHIBBOLETH_ATTRIBUTE_MAP\<close> of testsettings.py; the inherited methods are
  Django's defaults (cleaning is the identity, \<^verbatim>\<open>_remove_invalid_user\<close> logs out,
  \<^verbatim>\<open>configure_user\<close> returns the user, every user may authenticate).
\<close>

definition sample_map :: "(string \<times> bool \<times> string) list" where
  "sample_map =
     [(''Shibboleth-mail'', True, ''email''),
      (''Shibboleth-eppn'', True, ''username''),
      (''Shibboleth-schoolBarCode'', False, ''barcode'')]"

definition sample_env :: env where
  "sample_env =
     \<lparr>SHIB_ATTRIBUTE_MAP = sample_map,
      LOGOUT_SESSION_KEY = ''shib_force_reauth'',
      header = ''REMOTE_USER'',
      mw_clean_username = (\<lambda>s rq. s),
      remove_invalid_user = (\<lambda>rq. rq\<lparr>req_user := Some AnonymousUser\<rparr>),
      login = (\<lambda>rq u. rq),
      create_unknown_user = True,
      field_names = [''id'', ''username'', ''email''],
      field_defaults = [(''username'', PyStr []), (''email'', PyStr [])],
      nullable = [],
      clean_username = (\<lambda>s. s),
      configure_user = (\<lambda>rq u. u),
      user_can_authenticate = (\<lambda>u. True)\<rparr>"

definition sample_headers :: "string \<rightharpoonup> string" where
  "sample_headers =
     [''REMOTE_USER'' \<mapsto> ''u1@example.edu'',
      ''Shibboleth-eppn'' \<mapsto> ''u1@example.edu'',
      ''Shibboleth-mail'' \<mapsto> ''u1@example.edu'']"

definition sample_user :: user where
  "sample_user =
     \<lparr>pk = 1,
      attrs = [(''username'', PyStr ''u1@example.edu''), (''email'', PyStr ''old@example.edu'')],
      usable_password = False\<rparr>"

definition sample_request :: request where
  "sample_request = \<lparr>req_user = Some AnonymousUser, session = Map.empty, META = sample_headers\<rparr>"

definition sample_world :: world where
  "sample_world = \<lparr>request = sample_request, store = [sample_user], trace = []\<rparr>"

text \<open>The same request in a session whose logout flag is set.\<close>

definition suppressed_world :: world where
  "suppressed_world =
     sample_world\<lparr>request := sample_request\<lparr>session := [''shib_force_reauth'' \<mapsto> SBool True]\<rparr>\<rparr>"

text \<open>A request whose mail header is missing and whose bar code header is empty.\<close>

definition incomplete_request :: request where
  "incomplete_request =
     sample_request\<lparr>META :=
       [''REMOTE_USER'' \<mapsto> ''u1@example.edu'',
        ''Shibboleth-eppn'' \<mapsto> ''u1@example.edu'',
        ''Shibboleth-schoolBarCode'' \<mapsto> []]\<rparr>"

text \<open>The request with the incomplete headers, and a user store without any row.\<close>

definition incomplete_world :: world where
  "incomplete_world = sample_world\<lparr>request := incomplete_request\<rparr>"

definition empty_store_world :: world where
  "empty_store_world = sample_world\<lparr>store := []\<rparr>"

text \<open>A request that is already authenticated as the sample user.\<close>

definition logged_in_world :: world where
  "logged_in_world = sample_world\<lparr>request := sample_request\<lparr>req_user := Some (AuthUser sample_user)\<rparr>\<rparr>"

text \<open>The same, in a session that holds the logout flag with the value \<^verbatim>\<open>False\<close>.\<close>

definition stale_flag_world :: world where
  "stale_flag_world =
     sample_world\<lparr>request := sample_request
       \<lparr>req_user := Some (AuthUser sample_user),
        session := [''shib_force_reauth'' \<mapsto> SBool False]\<rparr>\<rparr>"

text \<open>A deployment whose middleware cleans a username by cutting the domain off.\<close>

definition strip_domain :: "string \<Rightarrow> string" where
  "strip_domain s = takeWhile (\<lambda>c. c \<noteq> CHR ''@'') s"

definition stripping_env :: env where
  "stripping_env = sample_env\<lparr>mw_clean_username := (\<lambda>s rq. strip_domain s)\<rparr>"

text \<open>The sample deployment with the creation of unknown users switched off.\<close>

definition lookup_only_env :: env where
  "lookup_only_env = sample_env\<lparr>create_unknown_user := False\<rparr>"

text \<open>Parsed attributes whose \<^verbatim>\<open>username\<close> differs from the remote user header.\<close>

definition sample_meta :: pydict where
  "sample_meta =
     [(''email'', PyStr ''u1@example.edu''), (''username'', PyStr ''u1''), (''barcode'', PyStr [])]"

text \<open>A second user, named \<^verbatim>\<open>u1\<close>, and a store that holds both users.\<close>

definition other_user :: user where
  "other_user =
     \<lparr>pk = 2,
      attrs = [(''username'', PyStr ''u1''), (''email'', PyStr ''u1@other.example'')],
      usable_password = False\<rparr>"

definition collision_world :: world where
  "collision_world = sample_world\<lparr>store := [sample_user, other_user]\<rparr>"

section \<open>Properties of the attribute mapper\<close>

lemma absent_test: "(py_not (meta_get meta hdr) \<or> meta_get meta hdr = PyStr []) = absent meta hdr"
  by (auto simp: meta_get_def absent_def split: option.splits)

lemma parse_loop_error:
  "snd (parse_loop meta amap (sa, err)) =
     (err \<or> (\<exists>(hdr, required, name) \<in> set amap. required \<and> absent meta hdr))"
proof (induction amap arbitrary: sa err)
  case Nil
  show ?case by simp
next
  case (Cons entry amap)
  obtain hdr required name where entry: "entry = (hdr, required, name)"
    by (cases entry) auto
  show ?case
    unfolding entry using absent_test [of meta hdr]
    by (auto simp: Cons.IH Let_def simp del: py_not.simps)
qed

lemma parse_loop_keys:
  "fst ` set (fst (parse_loop meta amap (sa, err))) =
     fst ` set sa \<union> (\<lambda>(hdr, required, name). name) ` set amap"
proof (induction amap arbitrary: sa err)
  case Nil
  show ?case by simp
next
  case (Cons entry amap)
  obtain hdr required name where entry: "entry = (hdr, required, name)"
    by (cases entry) auto
  show ?case
    unfolding entry by (simp add: Cons.IH Let_def dom_update)
qed

lemma parse_loop_lookup_other:
  "name \<notin> (\<lambda>(hdr, required, name). name) ` set amap \<Longrightarrow>
     map_of (fst (parse_loop meta amap (sa, err))) name = map_of sa name"
proof (induction amap arbitrary: sa err)
  case Nil
  show ?case by simp
next
  case (Cons entry amap)
  obtain hdr' required' name' where entry: "entry = (hdr', required', name')"
    by (cases entry) auto
  from Cons.prems have "name \<noteq> name'"
    and "name \<notin> (\<lambda>(hdr, required, name). name) ` set amap"
    by (auto simp: entry)
  then show ?case
    unfolding entry by (simp add: Cons.IH Let_def update_conv')
qed

lemma parse_loop_lookup:
  "distinct (map (\<lambda>(hdr, required, name). name) amap) \<Longrightarrow> (hdr, required, name) \<in> set amap \<Longrightarrow>
     map_of (fst (parse_loop meta amap (sa, err))) name = Some (meta_get meta hdr)"
proof (induction amap arbitrary: sa err)
  case Nil
  then show ?case by simp
next
  case (Cons entry amap)
  obtain hdr' required' name' where entry: "entry = (hdr', required', name')"
    by (cases entry) auto
  show ?case
  proof (cases "(hdr, required, name) = entry")
    case True
    with Cons.prems(1) have "name \<notin> (\<lambda>(hdr, required, name). name) ` set amap"
      by (auto simp: entry)
    from parse_loop_lookup_other [OF this] True show ?thesis
      by (simp add: entry Let_def update_conv')
  next
    case False
    with Cons.prems have "(hdr, required, name) \<in> set amap"
      and "distinct (map (\<lambda>(hdr, required, name). name) amap)"
      by auto
    then show ?thesis
      unfolding entry by (simp add: Cons.IH Let_def)
  qed
qed

text \<open>
  C1. \<^verbatim>\<open>parse_attributes\<close> reports a validation failure exactly when some entry of the
  mapping is marked required and its header is missing or empty; optional entries never
  matter. Within a call the flag is never reset: from any point of the loop where it is
  true, it is true at the end.
\<close>

theorem parse_attributes_validation_failed:
  "snd (parse_attributes e rq) =
     (\<exists>(hdr, required, name) \<in> set (SHIB_ATTRIBUTE_MAP e). required \<and> absent (META rq) hdr)
   \<and> snd (parse_loop (META rq) rest (sa, True)) = True"
  by (simp add: parse_attributes_def parse_loop_error)

text \<open>
  C2. The keys of the dictionary returned by \<^verbatim>\<open>parse_attributes\<close> are exactly the
  canonical names of the configured mapping, for every header set.
\<close>

theorem parse_attributes_keys:
  "fst ` set (fst (parse_attributes e rq)) =
     (\<lambda>(hdr, required, name). name) ` set (SHIB_ATTRIBUTE_MAP e)"
  by (simp add: parse_attributes_def parse_loop_keys)

text \<open>
  C10. With unique canonical names, an entry whose header is missing from the request is
  mapped to \<^verbatim>\<open>None\<close>, an entry whose header holds the empty string is mapped to the empty
  string; the two values differ, and each of them fails validation when the entry is
  required.
\<close>

theorem parse_attributes_none_vs_empty:
  assumes "distinct (map (\<lambda>(hdr, required, name). name) (SHIB_ATTRIBUTE_MAP e))"
    and "(hdr, required, name) \<in> set (SHIB_ATTRIBUTE_MAP e)"
  shows "(META rq hdr = None \<longrightarrow> map_of (fst (parse_attributes e rq)) name = Some PyNone)
       \<and> (META rq hdr = Some [] \<longrightarrow> map_of (fst (parse_attributes e rq)) name = Some (PyStr []))
       \<and> PyNone \<noteq> PyStr []
       \<and> (required \<and> (META rq hdr = None \<or> META rq hdr = Some []) \<longrightarrow>
            snd (parse_attributes e rq))"
proof -
  have "map_of (fst (parse_attributes e rq)) name = Some (meta_get (META rq) hdr)"
    unfolding parse_attributes_def using assms by (rule parse_loop_lookup)
  moreover from assms(2)
  have "required \<and> (META rq hdr = None \<or> META rq hdr = Some []) \<longrightarrow> snd (parse_attributes e rq)"
    by (auto simp: parse_attributes_def parse_loop_error absent_def)
  ultimately show ?thesis
    by (simp add: meta_get_def)
qed

section \<open>Properties of the user resolver and the orchestrator\<close>

lemma map_of_dict_update:
  "map_of (dict_update d ps) = map_of d ++ map_of (rev ps)"
  unfolding dict_update_def
proof (induction ps arbitrary: d)
  case Nil
  show ?case by simp
next
  case (Cons p ps)
  obtain k v where p: "p = (k, v)" by (cases p)
  show ?case
    unfolding p by (simp add: Cons.IH update_conv' map_add_def fun_eq_iff split: option.splits)
qed

lemma keys_dict_update:
  "fst ` set (dict_update d ps) = fst ` set d \<union> fst ` set ps"
  unfolding dict_update_def
  by (induction ps arbitrary: d) (auto simp: dom_update split: prod.splits)

lemma map_of_shib_user_params_aux:
  "map_of (dict_update d (List.map_filter (\<lambda>k. map_option (Pair k) (map_of sm k)) fns)) =
     map_of d ++ (map_of sm |` set fns)"
proof (induction fns arbitrary: d)
  case Nil
  show ?case by (simp add: dict_update_def List.map_filter_simps)
next
  case (Cons k fns)
  show ?case
  proof (cases "map_of sm k")
    case None
    then show ?thesis
      using Cons.IH [of d]
      by (auto simp: List.map_filter_simps fun_eq_iff map_add_def restrict_map_def split: option.splits)
  next
    case (Some v)
    have "dict_update d ((k, v) # ps) = dict_update (AList.update k v d) ps" for ps
      by (simp add: dict_update_def)
    with Some show ?thesis
      using Cons.IH [of "AList.update k v d"]
      by (auto simp: List.map_filter_simps fun_eq_iff map_add_def restrict_map_def update_conv'
          split: option.splits)
  qed
qed

lemma map_of_shib_user_params:
  "map_of (shib_user_params fns sm) = map_of sm |` set fns"
  unfolding shib_user_params_def by (simp add: map_of_shib_user_params_aux)

lemma py_min_all: "bs \<noteq> [] \<Longrightarrow> py_min bs = (\<forall>b \<in> set bs. b)"
proof -
  have "fold min xs b = (b \<and> (\<forall>x \<in> set xs. x))" for xs and b :: bool
    by (induction xs arbitrary: b) (auto simp: min_def)
  then show "bs \<noteq> [] \<Longrightarrow> py_min bs = (\<forall>b \<in> set bs. b)"
    by (cases bs) (auto simp: py_min_def)
qed

lemma compare_params_ok:
  "fst ` set ps \<subseteq> fst ` set (attrs u) \<Longrightarrow>
     compare_params u ps = Inr (map (\<lambda>(k, v). map_of (attrs u) k = Some v) ps)"
proof (induction ps)
  case Nil
  show ?case by simp
next
  case (Cons p ps)
  obtain k v where p: "p = (k, v)" by (cases p)
  from Cons.prems have "k \<in> fst ` set (attrs u)" by (simp add: p)
  then obtain cur where cur: "map_of (attrs u) k = Some cur"
    by (metis domD dom_map_of_conv_image_fst)
  from Cons.prems have "fst ` set ps \<subseteq> fst ` set (attrs u)" by simp
  from Cons.IH [OF this] cur show ?case
    by (simp add: p getattr_def)
qed



text \<open>
  C3. With the logout flag of the session set to \<^verbatim>\<open>True\<close>, \<^verbatim>\<open>process_request\<close> leaves the
  request, the session, the user store and the trace of calls as they were, whatever the
  headers are: nothing is parsed, written, resolved or logged in. It returns normally
  when the request carries a \<^verbatim>\<open>user\<close> attribute, and the flag is still set afterwards, so the
  next request of the session is stopped in the same way.
\<close>

theorem logout_suppressed_no_authentication:
  assumes "session (request w) (LOGOUT_SESSION_KEY e) = Some (SBool True)"
  shows "snd (process_request e w) = w
       \<and> (req_user (request w) \<noteq> None \<longrightarrow> fst (process_request e w) = Inr ())
       \<and> session (request (snd (process_request e w))) (LOGOUT_SESSION_KEY e) = Some (SBool True)"
  using assms by (simp add: process_request_def)



lemma fold_max_upper: "(a::nat) \<le> fold max xs a \<and> (\<forall>x \<in> set xs. x \<le> fold max xs a)"
proof (induction xs arbitrary: a)
  case Nil
  show ?case by simp
next
  case (Cons x xs)
  from Cons.IH [of "max x a"] show ?case by auto
qed

lemma fresh_pk_new: "r \<in> set rows \<Longrightarrow> pk r \<noteq> fresh_pk rows"
proof
  assume "r \<in> set rows" and "pk r = fresh_pk rows"
  with fold_max_upper [of 0 "map pk rows"] have "fresh_pk rows \<le> fold max (map pk rows) 0"
    by auto
  then show False by (simp add: fresh_pk_def)
qed


lemma setup_user_found:
  assumes "filter (has_username username) (store w) = [u]"
  shows "setup_user e username defaults w =
     (Inr (Some u),
      w\<lparr>trace := trace w @
           [SetupUser username defaults,
            if create_unknown_user e then GetOrCreate username defaults else Get username]\<rparr>)"
  using assms
  by (simp add: setup_user_def objects_get_or_create_def objects_get_def log_event_def Let_def)

lemma setup_user_many:
  assumes "filter (has_username username) (store w) = u # u' # us"
  shows "setup_user e username defaults w =
     (Inl MultipleObjectsReturned,
      w\<lparr>trace := trace w @
           [SetupUser username defaults,
            if create_unknown_user e then GetOrCreate username defaults else Get username]\<rparr>)"
  using assms
  by (simp add: setup_user_def objects_get_or_create_def objects_get_def log_event_def Let_def)

lemma setup_user_miss:
  assumes "\<not> create_unknown_user e" and "filter (has_username username) (store w) = []"
  shows "setup_user e username defaults w =
     (Inr None, w\<lparr>trace := trace w @ [SetupUser username defaults, Get username]\<rparr>)"
  using assms
  by (simp add: setup_user_def objects_get_def log_event_def Let_def)



lemmas sample_defs =
  sample_env_def sample_map_def sample_headers_def sample_user_def sample_request_def
  sample_world_def suppressed_world_def incomplete_request_def incomplete_world_def
  empty_store_world_def logged_in_world_def stale_flag_world_def strip_domain_def
  stripping_env_def other_user_def collision_world_def

theorem parse_attributes_validation_failed_witness:
  "snd (parse_attributes sample_env incomplete_request)
   \<and> \<not> snd (parse_attributes sample_env sample_request)"
proof -
  have "\<exists>(hdr, required, name) \<in> set (SHIB_ATTRIBUTE_MAP sample_env).
          required \<and> absent (META incomplete_request) hdr"
    by (simp add: sample_defs absent_def)
  moreover have "\<not> (\<exists>(hdr, required, name) \<in> set (SHIB_ATTRIBUTE_MAP sample_env).
          required \<and> absent (META sample_request) hdr)"
    by (simp add: sample_defs absent_def)
  ultimately show ?thesis
    using parse_attributes_validation_failed [of sample_env incomplete_request]
      parse_attributes_validation_failed [of sample_env sample_request]
    by blast
qed

theorem parse_attributes_none_vs_empty_witness:
  "map_of (fst (parse_attributes sample_env incomplete_request)) ''email'' = Some PyNone
   \<and> map_of (fst (parse_attributes sample_env incomplete_request)) ''barcode'' = Some (PyStr [])"
proof -
  have d: "distinct (map (\<lambda>(hdr, required, name). name) (SHIB_ATTRIBUTE_MAP sample_env))"
    by (simp add: sample_defs)
  have m: "(''Shibboleth-mail'', True, ''email'') \<in> set (SHIB_ATTRIBUTE_MAP sample_env)"
    by (simp add: sample_defs)
  have b: "(''Shibboleth-schoolBarCode'', False, ''barcode'') \<in> set (SHIB_ATTRIBUTE_MAP sample_env)"
    by (simp add: sample_defs)
  have "META incomplete_request ''Shibboleth-mail'' = None"
    and "META incomplete_request ''Shibboleth-schoolBarCode'' = Some []"
    by (simp_all add: sample_defs)
  with parse_attributes_none_vs_empty [OF d m, of incomplete_request]
    parse_attributes_none_vs_empty [OF d b, of incomplete_request]
  show ?thesis by blast
qed

theorem logout_suppressed_no_authentication_witness:
  "session (request suppressed_world) (LOGOUT_SESSION_KEY sample_env) = Some (SBool True)
   \<and> META (request suppressed_world) (header sample_env) = Some ''u1@example.edu''
   \<and> process_request sample_env suppressed_world = (Inr (), suppressed_world)"
proof -
  have h: "session (request suppressed_world) (LOGOUT_SESSION_KEY sample_env) = Some (SBool True)"
    by (simp add: sample_defs)
  have u: "req_user (request suppressed_world) \<noteq> None"
    by (simp add: sample_defs)
  have m: "META (request suppressed_world) (header sample_env) = Some ''u1@example.edu''"
    by (simp add: sample_defs)
  from logout_suppressed_no_authentication [OF h] u
  have "process_request sample_env suppressed_world = (Inr (), suppressed_world)"
    by (simp add: prod_eq_iff)
  with h m show ?thesis by blast
qed


text \<open>
  C5, as amended. When the request is authenticated as a user whose stored username
  equals the cleaned value of the non-empty remote user header, and the logout flag is
  not \<^verbatim>\<open>True\<close>, \<^verbatim>\<open>process_request\<close> returns after removing the logout key from the session
  and doing nothing else: no parsing, no other change of the session, no access to the
  user store, no login. Only the header value is cleaned; the stored username is compared
  as it is.
\<close>

theorem already_authenticated_fast_path:
  assumes "req_user (request w) = Some (AuthUser u)"
    and "session (request w) (LOGOUT_SESSION_KEY e) \<noteq> Some (SBool True)"
    and "META (request w) (header e) = Some username"
    and "username \<noteq> []"
    and "map_of (attrs u) ''username'' =
           Some (PyStr (mw_clean_username e username
                   (request (session_pop (LOGOUT_SESSION_KEY e) w))))"
  shows "process_request e w = (Inr (), session_pop (LOGOUT_SESSION_KEY e) w)
       \<and> store (snd (process_request e w)) = store w
       \<and> trace (snd (process_request e w)) = trace w @ [SessionPop (LOGOUT_SESSION_KEY e)]
       \<and> req_user (request (snd (process_request e w))) = req_user (request w)
       \<and> META (request (snd (process_request e w))) = META (request w)
       \<and> session (request (snd (process_request e w))) =
           (session (request w))(LOGOUT_SESSION_KEY e := None)
       \<and> (session (request w) (LOGOUT_SESSION_KEY e) = None \<longrightarrow>
            request (snd (process_request e w)) = request w)"
proof -
  let ?w1 = "session_pop (LOGOUT_SESSION_KEY e) w"
  have r: "req_user (request ?w1) = Some (AuthUser u)"
    and m: "META (request ?w1) (header e) = Some username"
    using assms(1,3) by (simp_all add: session_pop_def log_event_def)
  have a: "already_authenticated e username ?w1 = (Inr True, ?w1)"
    using r assms(5) by (simp add: already_authenticated_def getattr_def)
  have p: "process_request e w = (Inr (), ?w1)"
    using assms(1,2,4) m a by (simp add: process_request_def Let_def)
  have "session (request w) (LOGOUT_SESSION_KEY e) = None \<longrightarrow> request ?w1 = request w"
    by (auto simp: session_pop_def log_event_def fun_upd_idem_iff)
  then show ?thesis
    unfolding p by (simp add: session_pop_def log_event_def)
qed


lemma already_authenticated_False:
  assumes "already_authenticated e username w1 = (Inr False, w2)"
  shows "\<exists>pre. trace w2 = trace w1 @ pre \<and> set pre \<subseteq> {RemoveInvalidUser}"
    and "store w2 = store w1"
  using assms
  by (auto simp: already_authenticated_def log_event_def
      split: option.splits ruser.splits sum.splits if_splits)

lemma extract_and_login_failed:
  assumes "snd (parse_attributes e (request w2))"
  shows "extract_and_login e username w2 =
     (Inl (ShibbolethValidationError (fst (parse_attributes e (request w2)))),
      session_set ''shib'' (SDict (fst (parse_attributes e (request w2))))
        (log_event ParseAttributes w2))"
proof -
  obtain sm err where "parse_attributes e (request w2) = (sm, err)"
    by (cases "parse_attributes e (request w2)")
  with assms show ?thesis
    by (simp add: extract_and_login_def Let_def)
qed


theorem already_authenticated_fast_path_witness:
  "req_user (request logged_in_world) = Some (AuthUser sample_user)
   \<and> META (request logged_in_world) (header sample_env) = Some ''u1@example.edu''
   \<and> process_request sample_env logged_in_world =
       (Inr (), logged_in_world\<lparr>trace := [SessionPop ''shib_force_reauth'']\<rparr>)"
proof -
  have 1: "req_user (request logged_in_world) = Some (AuthUser sample_user)"
    by (simp add: sample_defs)
  have 2: "session (request logged_in_world) (LOGOUT_SESSION_KEY sample_env) \<noteq> Some (SBool True)"
    by (simp add: sample_defs)
  have 3: "META (request logged_in_world) (header sample_env) = Some ''u1@example.edu''"
    by (simp add: sample_defs)
  have 4: "''u1@example.edu'' \<noteq> []" by simp
  have 5: "map_of (attrs sample_user) ''username'' =
      Some (PyStr (mw_clean_username sample_env ''u1@example.edu''
        (request (session_pop (LOGOUT_SESSION_KEY sample_env) logged_in_world))))"
    by (simp add: sample_defs)
  have "session_pop (LOGOUT_SESSION_KEY sample_env) logged_in_world =
      logged_in_world\<lparr>trace := [SessionPop ''shib_force_reauth'']\<rparr>"
    by (simp add: sample_defs session_pop_def log_event_def)
  with already_authenticated_fast_path [OF 1 2 3 4 5] 1 3 show ?thesis
    by simp
qed


lemma authenticate_miss:
  assumes "\<not> create_unknown_user e"
    and "filter (has_username (clean_username e remote_user)) (store w) = []"
    and "field_names e \<noteq> []"
  shows "fst (authenticate e remote_user shib_meta w) = Inr None
       \<and> store (snd (authenticate e remote_user shib_meta w)) = store w"
proof (cases "remote_user = []")
  case True
  then show ?thesis by (simp add: authenticate_def log_event_def)
next
  case False
  let ?w = "log_event (Authenticate remote_user shib_meta) w"
  have "filter (has_username (clean_username e remote_user)) (store ?w) = []"
    using assms(2) by (simp add: log_event_def)
  from setup_user_miss [OF assms(1) this] False assms(3) show ?thesis
    by (simp add: authenticate_def Let_def log_event_def)
qed

text \<open>
  C8. With the creation of unknown users switched off and no row with the username,
  \<^verbatim>\<open>setup_user\<close> returns \<^verbatim>\<open>None\<close> after the one lookup, without an error, and so does
  \<^verbatim>\<open>authenticate\<close> for a user model that has a field; the user store is unchanged.
\<close>

theorem setup_user_lookup_miss:
  assumes "\<not> create_unknown_user e"
  shows "(filter (has_username username) (store w) = [] \<longrightarrow>
            setup_user e username defaults w =
              (Inr None, w\<lparr>trace := trace w @ [SetupUser username defaults, Get username]\<rparr>))
       \<and> (filter (has_username (clean_username e remote_user)) (store w) = []
            \<and> field_names e \<noteq> [] \<longrightarrow>
            fst (authenticate e remote_user shib_meta w) = Inr None
            \<and> store (snd (authenticate e remote_user shib_meta w)) = store w)"
  using assms by (simp add: setup_user_miss authenticate_miss)

theorem setup_user_lookup_miss_witness:
  "\<not> create_unknown_user lookup_only_env
   \<and> setup_user lookup_only_env ''u2@example.edu'' [] sample_world =
       (Inr None, sample_world\<lparr>trace := [SetupUser ''u2@example.edu'' [], Get ''u2@example.edu'']\<rparr>)
   \<and> fst (authenticate lookup_only_env ''u2@example.edu'' [] sample_world) = Inr None"
proof -
  have c: "\<not> create_unknown_user lookup_only_env"
    by (simp add: lookup_only_env_def sample_defs)
  have n: "filter (has_username ''u2@example.edu'') (store sample_world) = []"
    by (simp add: sample_defs has_username_def)
  have n': "filter (has_username (clean_username lookup_only_env ''u2@example.edu''))
      (store sample_world) = []"
    by (simp add: lookup_only_env_def sample_defs has_username_def)
  have f: "field_names lookup_only_env \<noteq> []"
    by (simp add: lookup_only_env_def sample_defs)
  have t: "trace sample_world = []" by (simp add: sample_defs)
  from setup_user_lookup_miss [OF c, of "''u2@example.edu''" sample_world "[]" "''u2@example.edu''" "[]"]
    n n' f c t
  show ?thesis by simp
qed



lemma distinct_dict_update:
  "distinct (map fst d) \<Longrightarrow> distinct (map fst (dict_update d ps))"
  unfolding dict_update_def
  by (induction ps arbitrary: d) (auto simp: distinct_update split: prod.splits)

lemma distinct_shib_user_params: "distinct (map fst (shib_user_params fns sm))"
  unfolding shib_user_params_def by (rule distinct_dict_update) simp

lemma shib_user_params_mem:
  assumes "k \<in> set fns" and "map_of sm k = Some v"
  shows "(k, v) \<in> set (shib_user_params fns sm)"
proof -
  from assms have "map_of (shib_user_params fns sm) k = Some v"
    by (simp add: map_of_shib_user_params)
  then show ?thesis by (rule map_of_SomeD)
qed

lemma dict_update_applies:
  assumes "distinct (map fst ps)" and "(k, v) \<in> set ps"
  shows "map_of (dict_update d ps) k = Some v"
proof -
  from assms have "map_of (rev ps) k = Some v"
    by (intro map_of_is_SomeI) (simp_all add: rev_map [symmetric])
  then show ?thesis by (simp add: map_of_dict_update map_add_def)
qed


lemma write_row_mem: "u \<in> set (write_row u rows)"
  by (force simp: write_row_def)

lemma write_row_only: "r \<in> set (write_row u rows) \<Longrightarrow> pk r = pk u \<Longrightarrow> r = u"
  by (auto simp: write_row_def image_iff split: if_splits)

lemma write_row_others:
  "filter (\<lambda>r. pk r \<noteq> pk u) (write_row u rows) = filter (\<lambda>r. pk r \<noteq> pk u) rows"
proof -
  have "filter (\<lambda>r. pk r \<noteq> pk u) (map (\<lambda>r. if pk r = pk u then u else r) rows) =
      filter (\<lambda>r. pk r \<noteq> pk u) rows"
    by (induction rows) auto
  then show ?thesis by (simp add: write_row_def)
qed

lemma update_user_params_differs:
  assumes keys: "fst ` set params \<subseteq> fst ` set (attrs u)"
    and diff: "\<exists>(k, v) \<in> set params. map_of (attrs u) k \<noteq> Some v"
    and ok: "\<not> violates e (u\<lparr>attrs := dict_update (attrs u) params\<rparr>)
                 (filter (\<lambda>r. pk r \<noteq> pk u) (store w))"
  shows "update_user_params e u params w =
     (Inr (u\<lparr>attrs := dict_update (attrs u) params\<rparr>),
      w\<lparr>store := write_row (u\<lparr>attrs := dict_update (attrs u) params\<rparr>) (store w),
        trace := trace w @ [UpdateUserParams (pk u) params, Save (pk u)]\<rparr>)"
proof -
  from diff have ne: "params \<noteq> []" by auto
  let ?bs = "map (\<lambda>(k, v). map_of (attrs u) k = Some v) params"
  have "?bs \<noteq> []" using ne by simp
  from py_min_all [OF this] diff have "\<not> py_min ?bs" by auto
  with ne ok show ?thesis
    by (simp add: update_user_params_def compare_params_ok [OF keys] Let_def user_save_def
        save_row_def log_event_def)
qed

lemma update_user_params_refused:
  assumes keys: "fst ` set params \<subseteq> fst ` set (attrs u)"
    and diff: "\<exists>(k, v) \<in> set params. map_of (attrs u) k \<noteq> Some v"
    and bad: "violates e (u\<lparr>attrs := dict_update (attrs u) params\<rparr>)
                (filter (\<lambda>r. pk r \<noteq> pk u) (store w))"
  shows "update_user_params e u params w =
     (Inl IntegrityError,
      w\<lparr>trace := trace w @ [UpdateUserParams (pk u) params, Save (pk u)]\<rparr>)"
proof -
  from diff have ne: "params \<noteq> []" by auto
  let ?bs = "map (\<lambda>(k, v). map_of (attrs u) k = Some v) params"
  have "?bs \<noteq> []" using ne by simp
  from py_min_all [OF this] diff have "\<not> py_min ?bs" by auto
  with ne bad show ?thesis
    by (simp add: update_user_params_def compare_params_ok [OF keys] Let_def user_save_def
        save_row_def log_event_def)
qed

lemma update_user_params_same:
  assumes same: "\<forall>(k, v) \<in> set params. map_of (attrs u) k = Some v"
  shows "update_user_params e u params w =
     (Inr u, w\<lparr>trace := trace w @ [UpdateUserParams (pk u) params]\<rparr>)"
proof (cases "params = []")
  case True
  then show ?thesis by (simp add: update_user_params_def log_event_def)
next
  case False
  from same have keys: "fst ` set params \<subseteq> fst ` set (attrs u)"
    by (force dest: map_of_SomeD)
  let ?bs = "map (\<lambda>(k, v). map_of (attrs u) k = Some v) params"
  have "?bs \<noteq> []" using False by simp
  from py_min_all [OF this] same have "py_min ?bs" by auto
  with False show ?thesis
    by (simp add: update_user_params_def compare_params_ok [OF keys] Let_def log_event_def)
qed

text \<open>
  C4, as amended. When every key of the given dictionary is an attribute of the user and
  some given value differs from the current one, \<^verbatim>\<open>update_user_params\<close> calls \<^verbatim>\<open>save\<close> once.
  If the table accepts the updated row, that one write is persisted: the row of the user
  is the object with all given values applied, and every other row is as it was. If the
  table refuses the row, \<^verbatim>\<open>IntegrityError\<close> is raised and the store is unchanged. When
  every given value equals the current one, and when the dictionary is empty, nothing is
  saved.
\<close>

theorem update_user_params_writes:
  assumes "fst ` set params \<subseteq> fst ` set (attrs u)"
  shows "((\<exists>(k, v) \<in> set params. map_of (attrs u) k \<noteq> Some v)
            \<and> \<not> violates e (u\<lparr>attrs := dict_update (attrs u) params\<rparr>)
                   (filter (\<lambda>r. pk r \<noteq> pk u) (store w)) \<longrightarrow>
            update_user_params e u params w =
              (Inr (u\<lparr>attrs := dict_update (attrs u) params\<rparr>),
               w\<lparr>store := write_row (u\<lparr>attrs := dict_update (attrs u) params\<rparr>) (store w),
                 trace := trace w @ [UpdateUserParams (pk u) params, Save (pk u)]\<rparr>)
            \<and> u\<lparr>attrs := dict_update (attrs u) params\<rparr>
                \<in> set (store (snd (update_user_params e u params w)))
            \<and> (\<forall>r \<in> set (store (snd (update_user_params e u params w))).
                  pk r = pk u \<longrightarrow> r = u\<lparr>attrs := dict_update (attrs u) params\<rparr>)
            \<and> filter (\<lambda>r. pk r \<noteq> pk u) (store (snd (update_user_params e u params w))) =
                filter (\<lambda>r. pk r \<noteq> pk u) (store w)
            \<and> (distinct (map fst params) \<longrightarrow>
                 (\<forall>(k, v) \<in> set params. map_of (dict_update (attrs u) params) k = Some v)))
       \<and> ((\<exists>(k, v) \<in> set params. map_of (attrs u) k \<noteq> Some v)
            \<and> violates e (u\<lparr>attrs := dict_update (attrs u) params\<rparr>)
                 (filter (\<lambda>r. pk r \<noteq> pk u) (store w)) \<longrightarrow>
            update_user_params e u params w =
              (Inl IntegrityError,
               w\<lparr>trace := trace w @ [UpdateUserParams (pk u) params, Save (pk u)]\<rparr>))
       \<and> ((\<forall>(k, v) \<in> set params. map_of (attrs u) k = Some v) \<longrightarrow>
            update_user_params e u params w =
              (Inr u, w\<lparr>trace := trace w @ [UpdateUserParams (pk u) params]\<rparr>))
       \<and> update_user_params e u [] w =
            (Inr u, w\<lparr>trace := trace w @ [UpdateUserParams (pk u) []]\<rparr>)"
proof -
  let ?u' = "u\<lparr>attrs := dict_update (attrs u) params\<rparr>"
  let ?others = "filter (\<lambda>r. pk r \<noteq> pk u) (store w)"
  let ?diff = "\<exists>(k, v) \<in> set params. map_of (attrs u) k \<noteq> Some v"
  have a: "update_user_params e u params w =
      (Inr ?u', w\<lparr>store := write_row ?u' (store w),
                  trace := trace w @ [UpdateUserParams (pk u) params, Save (pk u)]\<rparr>)"
    if "?diff" and "\<not> violates e ?u' ?others"
    using assms that by (rule update_user_params_differs)
  have b: "?u' \<in> set (write_row ?u' (store w))"
    by (rule write_row_mem)
  have c: "\<forall>r \<in> set (write_row ?u' (store w)). pk r = pk u \<longrightarrow> r = ?u'"
    using write_row_only [of _ ?u' "store w"] by simp
  have d: "filter (\<lambda>r. pk r \<noteq> pk u) (write_row ?u' (store w)) = ?others"
    using write_row_others [of ?u' "store w"] by simp
  have f: "\<forall>(k, v) \<in> set params. map_of (dict_update (attrs u) params) k = Some v"
    if "distinct (map fst params)"
    using that by (auto simp: dict_update_applies)
  have g: "update_user_params e u params w =
      (Inl IntegrityError, w\<lparr>trace := trace w @ [UpdateUserParams (pk u) params, Save (pk u)]\<rparr>)"
    if "?diff" and "violates e ?u' ?others"
    using assms that by (rule update_user_params_refused)
  have h: "update_user_params e u params w =
      (Inr u, w\<lparr>trace := trace w @ [UpdateUserParams (pk u) params]\<rparr>)"
    if "\<forall>(k, v) \<in> set params. map_of (attrs u) k = Some v"
    using that by (rule update_user_params_same)
  have i: "update_user_params e u [] w =
      (Inr u, w\<lparr>trace := trace w @ [UpdateUserParams (pk u) []]\<rparr>)"
    by (simp add: update_user_params_def log_event_def)
  show ?thesis
  proof (intro conjI impI)
    assume p: "?diff \<and> \<not> violates e ?u' ?others"
    then show "update_user_params e u params w =
        (Inr ?u', w\<lparr>store := write_row ?u' (store w),
                    trace := trace w @ [UpdateUserParams (pk u) params, Save (pk u)]\<rparr>)"
      using a by blast
    from p a show "?u' \<in> set (store (snd (update_user_params e u params w)))"
      using b by simp
    from p a show "\<forall>r \<in> set (store (snd (update_user_params e u params w))).
        pk r = pk u \<longrightarrow> r = ?u'"
      using c by simp
    from p a show "filter (\<lambda>r. pk r \<noteq> pk u) (store (snd (update_user_params e u params w))) =
        ?others"
      using d by simp
  next
    assume "distinct (map fst params)"
    then show "\<forall>(k, v) \<in> set params. map_of (dict_update (attrs u) params) k = Some v"
      by (rule f)
  next
    assume "?diff \<and> violates e ?u' ?others"
    then show "update_user_params e u params w =
        (Inl IntegrityError,
         w\<lparr>trace := trace w @ [UpdateUserParams (pk u) params, Save (pk u)]\<rparr>)"
      using g by blast
  next
    assume "\<forall>(k, v) \<in> set params. map_of (attrs u) k = Some v"
    then show "update_user_params e u params w =
        (Inr u, w\<lparr>trace := trace w @ [UpdateUserParams (pk u) params]\<rparr>)"
      by (rule h)
  next
    show "update_user_params e u [] w =
        (Inr u, w\<lparr>trace := trace w @ [UpdateUserParams (pk u) []]\<rparr>)"
      by (rule i)
  qed
qed

text \<open>
  C4 as stated fails where the table refuses the write: a given value \<^verbatim>\<open>None\<close> for the
  \<^verbatim>\<open>NOT NULL\<close> column \<^verbatim>\<open>email\<close> differs from the current value, yet \<^verbatim>\<open>save\<close> raises
  \<^verbatim>\<open>IntegrityError\<close> and the store is as before.
\<close>

theorem update_user_params_counterexample:
  "fst ` set [(''email'', PyNone)] \<subseteq> fst ` set (attrs sample_user)
   \<and> map_of (attrs sample_user) ''email'' \<noteq> Some PyNone
   \<and> fst (update_user_params sample_env sample_user [(''email'', PyNone)] sample_world) =
       Inl IntegrityError
   \<and> store (snd (update_user_params sample_env sample_user [(''email'', PyNone)] sample_world)) =
       store sample_world"
  by (simp add: sample_defs update_user_params_def getattr_def py_min_def user_save_def
      save_row_def violates_def null_violation_def dict_update_def log_event_def)

theorem update_user_params_writes_witness:
  "fst ` set [(''email'', PyStr ''u1@example.edu'')] \<subseteq> fst ` set (attrs sample_user)
   \<and> update_user_params sample_env sample_user [(''email'', PyStr ''u1@example.edu'')] sample_world =
       (Inr (sample_user\<lparr>attrs := [(''username'', PyStr ''u1@example.edu''),
                                     (''email'', PyStr ''u1@example.edu'')]\<rparr>),
        sample_world
          \<lparr>store := [sample_user\<lparr>attrs := [(''username'', PyStr ''u1@example.edu''),
                                             (''email'', PyStr ''u1@example.edu'')]\<rparr>],
           trace := [UpdateUserParams 1 [(''email'', PyStr ''u1@example.edu'')], Save 1]\<rparr>)
   \<and> update_user_params sample_env sample_user [(''email'', PyNone)] sample_world =
       (Inl IntegrityError, sample_world\<lparr>trace := [UpdateUserParams 1 [(''email'', PyNone)], Save 1]\<rparr>)
   \<and> update_user_params sample_env sample_user [(''email'', PyStr ''old@example.edu'')] sample_world =
       (Inr sample_user,
        sample_world\<lparr>trace := [UpdateUserParams 1 [(''email'', PyStr ''old@example.edu'')]]\<rparr>)"
proof -
  let ?new = "[(''email'', PyStr ''u1@example.edu'')]"
  let ?none = "[(''email'', PyNone)]"
  let ?old = "[(''email'', PyStr ''old@example.edu'')]"
  have k: "fst ` set ?new \<subseteq> fst ` set (attrs sample_user)"
    and k': "fst ` set ?none \<subseteq> fst ` set (attrs sample_user)"
    and k'': "fst ` set ?old \<subseteq> fst ` set (attrs sample_user)"
    by (simp_all add: sample_defs)
  have d: "\<exists>(k, v) \<in> set ?new. map_of (attrs sample_user) k \<noteq> Some v"
    and d': "\<exists>(k, v) \<in> set ?none. map_of (attrs sample_user) k \<noteq> Some v"
    and s: "\<forall>(k, v) \<in> set ?old. map_of (attrs sample_user) k = Some v"
    by (simp_all add: sample_defs)
  have ok: "\<not> violates sample_env (sample_user\<lparr>attrs := dict_update (attrs sample_user) ?new\<rparr>)
      (filter (\<lambda>r. pk r \<noteq> pk sample_user) (store sample_world))"
    by (simp add: sample_defs violates_def null_violation_def unique_violation_def dict_update_def)
  have bad: "violates sample_env (sample_user\<lparr>attrs := dict_update (attrs sample_user) ?none\<rparr>)
      (filter (\<lambda>r. pk r \<noteq> pk sample_user) (store sample_world))"
    by (simp add: sample_defs violates_def null_violation_def dict_update_def)
  have ev: "dict_update (attrs sample_user) ?new =
      [(''username'', PyStr ''u1@example.edu''), (''email'', PyStr ''u1@example.edu'')]"
    "pk sample_user = 1" "trace sample_world = []" "store sample_world = [sample_user]"
    by (simp_all add: sample_defs dict_update_def)
  from update_user_params_writes [OF k, of sample_env sample_world] d ok
  have "update_user_params sample_env sample_user ?new sample_world =
      (Inr (sample_user\<lparr>attrs := dict_update (attrs sample_user) ?new\<rparr>),
       sample_world
         \<lparr>store := write_row (sample_user\<lparr>attrs := dict_update (attrs sample_user) ?new\<rparr>)
                     (store sample_world),
          trace := trace sample_world @ [UpdateUserParams (pk sample_user) ?new,
                                         Save (pk sample_user)]\<rparr>)"
    by blast
  then have 1: "update_user_params sample_env sample_user ?new sample_world =
       (Inr (sample_user\<lparr>attrs := [(''username'', PyStr ''u1@example.edu''),
                                     (''email'', PyStr ''u1@example.edu'')]\<rparr>),
        sample_world
          \<lparr>store := [sample_user\<lparr>attrs := [(''username'', PyStr ''u1@example.edu''),
                                             (''email'', PyStr ''u1@example.edu'')]\<rparr>],
           trace := [UpdateUserParams 1 ?new, Save 1]\<rparr>)"
    by (simp add: ev write_row_def)
  from update_user_params_writes [OF k', of sample_env sample_world] d' bad
  have "update_user_params sample_env sample_user ?none sample_world =
      (Inl IntegrityError,
       sample_world\<lparr>trace := trace sample_world @ [UpdateUserParams (pk sample_user) ?none,
                                                    Save (pk sample_user)]\<rparr>)"
    by blast
  then have 2: "update_user_params sample_env sample_user ?none sample_world =
       (Inl IntegrityError, sample_world\<lparr>trace := [UpdateUserParams 1 ?none, Save 1]\<rparr>)"
    by (simp add: ev)
  from update_user_params_writes [OF k'', of sample_env sample_world] s
  have "update_user_params sample_env sample_user ?old sample_world =
      (Inr sample_user,
       sample_world\<lparr>trace := trace sample_world @ [UpdateUserParams (pk sample_user) ?old]\<rparr>)"
    by blast
  then have 3: "update_user_params sample_env sample_user ?old sample_world =
       (Inr sample_user, sample_world\<lparr>trace := [UpdateUserParams 1 ?old]\<rparr>)"
    by (simp add: ev)
  from k 1 2 3 show ?thesis by blast
qed


lemma filter_fresh:
  "pk u = fresh_pk rows \<Longrightarrow> filter (\<lambda>r. pk r \<noteq> pk u) (rows @ [u']) =
     rows @ (if pk u' \<noteq> pk u then [u'] else [])"
  using fresh_pk_new [of _ rows] by (auto intro!: filter_True)

lemma write_row_created:
  assumes "pk u = fresh_pk rows" and "pk u' = pk u"
  shows "write_row u' (rows @ [u]) = rows @ [u']"
proof -
  have "map (\<lambda>r. if pk r = pk u' then u' else r) rows = rows"
    using fresh_pk_new [of _ rows] assms by (intro map_idI) auto
  with assms show ?thesis by (simp add: write_row_def)
qed

lemma violates_password [simp]:
  "violates e (u\<lparr>usable_password := b\<rparr>) others = violates e u others"
  by (simp add: violates_def null_violation_def unique_violation_def)

lemma get_or_create_created:
  assumes "filter (has_username name) rows = []"
    and "\<not> violates e (new_row e (dict_update [(''username'', PyStr name)] defaults) rows) rows"
  shows "objects_get_or_create e name defaults rows =
     (Inr (new_row e (dict_update [(''username'', PyStr name)] defaults) rows, True),
      rows @ [new_row e (dict_update [(''username'', PyStr name)] defaults) rows])"
  using assms
  by (simp add: objects_get_or_create_def objects_get_def objects_create_def Let_def)

lemma get_or_create_refused:
  assumes "filter (has_username name) rows = []"
    and "violates e (new_row e (dict_update [(''username'', PyStr name)] defaults) rows) rows"
  shows "objects_get_or_create e name defaults rows = (Inl IntegrityError, rows)"
  using assms
  by (simp add: objects_get_or_create_def objects_get_def objects_create_def Let_def)

lemma get_or_create_found:
  assumes "filter (has_username name) rows = [u]"
  shows "objects_get_or_create e name defaults rows = (Inr (u, False), rows)"
  using assms by (simp add: objects_get_or_create_def objects_get_def)

lemma get_or_create_many:
  assumes "filter (has_username name) rows = u # u' # us"
  shows "objects_get_or_create e name defaults rows = (Inl MultipleObjectsReturned, rows)"
  using assms by (simp add: objects_get_or_create_def objects_get_def)

lemma handle_created_user_new:
  assumes "store w = rows @ [u]" and "pk u = fresh_pk rows" and "\<not> violates e u rows"
  shows "handle_created_user e u w =
     (Inr (configure_user e (request w) (u\<lparr>usable_password := False\<rparr>)),
      w\<lparr>store := rows @ [u\<lparr>usable_password := False\<rparr>],
        trace := trace w @ [SetUnusablePassword (pk u), Save (pk u), ConfigureUser (pk u)]\<rparr>)"
proof -
  have "filter (\<lambda>r. pk r \<noteq> pk u) (rows @ [u]) = rows"
    using filter_fresh [OF assms(2), of u] by simp
  moreover have "write_row (u\<lparr>usable_password := False\<rparr>) (rows @ [u]) =
      rows @ [u\<lparr>usable_password := False\<rparr>]"
    using assms(2) by (intro write_row_created) simp_all
  ultimately show ?thesis
    using assms(1,3)
    by (simp add: handle_created_user_def user_save_def save_row_def log_event_def Let_def)
qed

lemma setup_user_create:
  assumes "create_unknown_user e" and "filter (has_username username) (store w) = []"
    and "\<not> violates e (new_row e (dict_update [(''username'', PyStr username)] defaults) (store w))
           (store w)"
  shows "setup_user e username defaults w =
     (Inr (Some (configure_user e (request w)
        ((new_row e (dict_update [(''username'', PyStr username)] defaults) (store w))
           \<lparr>usable_password := False\<rparr>))),
      w\<lparr>store := store w @
           [(new_row e (dict_update [(''username'', PyStr username)] defaults) (store w))
              \<lparr>usable_password := False\<rparr>],
        trace := trace w @
           [SetupUser username defaults, GetOrCreate username defaults,
            SetUnusablePassword (fresh_pk (store w)), Save (fresh_pk (store w)),
            ConfigureUser (fresh_pk (store w))]\<rparr>)"
proof -
  let ?new = "new_row e (dict_update [(''username'', PyStr username)] defaults) (store w)"
  let ?w2 = "w\<lparr>trace := trace w @ [SetupUser username defaults, GetOrCreate username defaults],
               store := store w @ [?new]\<rparr>"
  have pk: "pk ?new = fresh_pk (store w)" by (simp add: new_row_def)
  have "handle_created_user e ?new ?w2 =
     (Inr (configure_user e (request ?w2) (?new\<lparr>usable_password := False\<rparr>)),
      ?w2\<lparr>store := store w @ [?new\<lparr>usable_password := False\<rparr>],
          trace := trace ?w2 @ [SetUnusablePassword (pk ?new), Save (pk ?new),
                                ConfigureUser (pk ?new)]\<rparr>)"
    using _ pk assms(3) by (rule handle_created_user_new) simp
  then show ?thesis
    using assms(1) get_or_create_created [OF assms(2,3)]
    by (simp add: setup_user_def log_event_def Let_def pk)
qed

lemma setup_user_refused:
  assumes "create_unknown_user e" and "filter (has_username username) (store w) = []"
    and "violates e (new_row e (dict_update [(''username'', PyStr username)] defaults) (store w))
           (store w)"
  shows "setup_user e username defaults w =
     (Inl IntegrityError,
      w\<lparr>trace := trace w @ [SetupUser username defaults, GetOrCreate username defaults]\<rparr>)"
  using assms(1) get_or_create_refused [OF assms(2,3)]
  by (simp add: setup_user_def log_event_def Let_def)

text \<open>
  C7. With creation enabled, \<^verbatim>\<open>setup_user\<close> marks the password unusable, saves and calls
  \<^verbatim>\<open>configure_user\<close> exactly when \<^verbatim>\<open>get_or_create\<close> returns a created row (no row has the
  username and the table accepts the new row), and then returns what the hook returns.
  When a row is found it is returned as it is; when \<^verbatim>\<open>get_or_create\<close> raises, the error
  is passed on; in both cases none of the three calls is made.
\<close>

theorem setup_user_created_hook:
  assumes "create_unknown_user e"
  shows "(filter (has_username username) (store w) = []
            \<and> \<not> violates e
                   (new_row e (dict_update [(''username'', PyStr username)] defaults) (store w))
                   (store w) \<longrightarrow>
            objects_get_or_create e username defaults (store w) =
              (Inr (new_row e (dict_update [(''username'', PyStr username)] defaults) (store w),
                    True),
               store w @
                 [new_row e (dict_update [(''username'', PyStr username)] defaults) (store w)])
            \<and> setup_user e username defaults w =
              (Inr (Some (configure_user e (request w)
                 ((new_row e (dict_update [(''username'', PyStr username)] defaults) (store w))
                    \<lparr>usable_password := False\<rparr>))),
               w\<lparr>store := store w @
                    [(new_row e (dict_update [(''username'', PyStr username)] defaults) (store w))
                       \<lparr>usable_password := False\<rparr>],
                 trace := trace w @
                    [SetupUser username defaults, GetOrCreate username defaults,
                     SetUnusablePassword (fresh_pk (store w)), Save (fresh_pk (store w)),
                     ConfigureUser (fresh_pk (store w))]\<rparr>))
       \<and> (filter (has_username username) (store w) = []
            \<and> violates e
                 (new_row e (dict_update [(''username'', PyStr username)] defaults) (store w))
                 (store w) \<longrightarrow>
            objects_get_or_create e username defaults (store w) = (Inl IntegrityError, store w)
            \<and> setup_user e username defaults w =
              (Inl IntegrityError,
               w\<lparr>trace := trace w @
                    [SetupUser username defaults, GetOrCreate username defaults]\<rparr>))
       \<and> (\<forall>u. filter (has_username username) (store w) = [u] \<longrightarrow>
            objects_get_or_create e username defaults (store w) = (Inr (u, False), store w)
            \<and> setup_user e username defaults w =
              (Inr (Some u),
               w\<lparr>trace := trace w @
                    [SetupUser username defaults, GetOrCreate username defaults]\<rparr>))
       \<and> (\<forall>u u' us. filter (has_username username) (store w) = u # u' # us \<longrightarrow>
            objects_get_or_create e username defaults (store w) =
              (Inl MultipleObjectsReturned, store w)
            \<and> setup_user e username defaults w =
              (Inl MultipleObjectsReturned,
               w\<lparr>trace := trace w @
                    [SetupUser username defaults, GetOrCreate username defaults]\<rparr>))"
  using assms
  by (simp add: setup_user_create setup_user_refused setup_user_found setup_user_many
      get_or_create_created get_or_create_refused get_or_create_found get_or_create_many)

theorem setup_user_created_hook_witness:
  "create_unknown_user sample_env
   \<and> setup_user sample_env ''u2@example.edu'' [] sample_world =
       (Inr (Some \<lparr>pk = 2, attrs = [(''username'', PyStr ''u2@example.edu''), (''email'', PyStr [])],
                   usable_password = False\<rparr>),
        sample_world
          \<lparr>store := [sample_user,
                      \<lparr>pk = 2,
                       attrs = [(''username'', PyStr ''u2@example.edu''), (''email'', PyStr [])],
                       usable_password = False\<rparr>],
           trace := [SetupUser ''u2@example.edu'' [], GetOrCreate ''u2@example.edu'' [],
                     SetUnusablePassword 2, Save 2, ConfigureUser 2]\<rparr>)
   \<and> setup_user sample_env ''u3@example.edu'' [(''username'', PyStr ''u1'')] collision_world =
       (Inl IntegrityError,
        collision_world
          \<lparr>trace := [SetupUser ''u3@example.edu'' [(''username'', PyStr ''u1'')],
                     GetOrCreate ''u3@example.edu'' [(''username'', PyStr ''u1'')]]\<rparr>)
   \<and> setup_user sample_env ''u1@example.edu'' [] sample_world =
       (Inr (Some sample_user),
        sample_world\<lparr>trace := [SetupUser ''u1@example.edu'' [], GetOrCreate ''u1@example.edu'' []]\<rparr>)"
proof -
  have c: "create_unknown_user sample_env" by (simp add: sample_defs)
  have n: "filter (has_username ''u2@example.edu'') (store sample_world) = []"
    by (simp add: sample_defs has_username_def)
  have nr: "new_row sample_env (dict_update [(''username'', PyStr ''u2@example.edu'')] [])
      (store sample_world) =
      \<lparr>pk = 2, attrs = [(''username'', PyStr ''u2@example.edu''), (''email'', PyStr [])],
       usable_password = True\<rparr>"
    by (simp add: sample_defs new_row_def fresh_pk_def dict_update_def)
  have ok: "\<not> violates sample_env
      (new_row sample_env (dict_update [(''username'', PyStr ''u2@example.edu'')] [])
         (store sample_world)) (store sample_world)"
    unfolding nr
    by (simp add: sample_defs violates_def null_violation_def unique_violation_def)
  have n3: "filter (has_username ''u3@example.edu'') (store collision_world) = []"
    by (simp add: sample_defs has_username_def)
  have bad: "violates sample_env
      (new_row sample_env (dict_update [(''username'', PyStr ''u3@example.edu'')]
         [(''username'', PyStr ''u1'')]) (store collision_world)) (store collision_world)"
    by (simp add: sample_defs new_row_def dict_update_def violates_def unique_violation_def)
  have f: "filter (has_username ''u1@example.edu'') (store sample_world) = [sample_user]"
    by (simp add: sample_defs has_username_def)
  have k: "fresh_pk [sample_user] = 2" "trace sample_world = []"
    "trace collision_world = []" "store sample_world = [sample_user]"
    "request sample_world = sample_request"
    by (simp_all add: sample_defs fresh_pk_def)
  have h: "configure_user sample_env rq u = u" for rq u
    by (simp add: sample_defs)
  from setup_user_created_hook [OF c, of "''u2@example.edu''" sample_world "[]"] n ok
  have "setup_user sample_env ''u2@example.edu'' [] sample_world =
      (Inr (Some (configure_user sample_env (request sample_world)
         ((new_row sample_env (dict_update [(''username'', PyStr ''u2@example.edu'')] [])
             (store sample_world))\<lparr>usable_password := False\<rparr>))),
       sample_world\<lparr>store := store sample_world @
           [(new_row sample_env (dict_update [(''username'', PyStr ''u2@example.edu'')] [])
               (store sample_world))\<lparr>usable_password := False\<rparr>],
         trace := trace sample_world @
           [SetupUser ''u2@example.edu'' [], GetOrCreate ''u2@example.edu'' [],
            SetUnusablePassword (fresh_pk (store sample_world)),
            Save (fresh_pk (store sample_world)),
            ConfigureUser (fresh_pk (store sample_world))]\<rparr>)"
    by blast
  then have 1: "setup_user sample_env ''u2@example.edu'' [] sample_world =
       (Inr (Some \<lparr>pk = 2, attrs = [(''username'', PyStr ''u2@example.edu''), (''email'', PyStr [])],
                   usable_password = False\<rparr>),
        sample_world
          \<lparr>store := [sample_user,
                      \<lparr>pk = 2,
                       attrs = [(''username'', PyStr ''u2@example.edu''), (''email'', PyStr [])],
                       usable_password = False\<rparr>],
           trace := [SetupUser ''u2@example.edu'' [], GetOrCreate ''u2@example.edu'' [],
                     SetUnusablePassword 2, Save 2, ConfigureUser 2]\<rparr>)"
    unfolding nr by (simp add: k h)
  from setup_user_created_hook [OF c, of "''u3@example.edu''" collision_world
      "[(''username'', PyStr ''u1'')]"] n3 bad
  have "setup_user sample_env ''u3@example.edu'' [(''username'', PyStr ''u1'')] collision_world =
      (Inl IntegrityError,
       collision_world\<lparr>trace := trace collision_world @
          [SetupUser ''u3@example.edu'' [(''username'', PyStr ''u1'')],
           GetOrCreate ''u3@example.edu'' [(''username'', PyStr ''u1'')]]\<rparr>)"
    by blast
  then have 2: "setup_user sample_env ''u3@example.edu'' [(''username'', PyStr ''u1'')]
      collision_world =
       (Inl IntegrityError,
        collision_world
          \<lparr>trace := [SetupUser ''u3@example.edu'' [(''username'', PyStr ''u1'')],
                     GetOrCreate ''u3@example.edu'' [(''username'', PyStr ''u1'')]]\<rparr>)"
    by (simp add: k)
  from setup_user_created_hook [OF c, of "''u1@example.edu''" sample_world "[]"] f
  have "setup_user sample_env ''u1@example.edu'' [] sample_world =
      (Inr (Some sample_user),
       sample_world\<lparr>trace := trace sample_world @
          [SetupUser ''u1@example.edu'' [], GetOrCreate ''u1@example.edu'' []]\<rparr>)"
    by blast
  then have 3: "setup_user sample_env ''u1@example.edu'' [] sample_world =
       (Inr (Some sample_user),
        sample_world\<lparr>trace := [SetupUser ''u1@example.edu'' [], GetOrCreate ''u1@example.edu'' []]\<rparr>)"
    by (simp add: k)
  from c 1 2 3 show ?thesis by blast
qed


text \<open>
  C5 as stated fails twice. With a cleaning function that cuts the domain off, a user
  stored as \<^verbatim>\<open>u1@example.edu\<close> and the same header value clean to the same name, yet the
  request goes on to parse and store the attributes. With the identity as the cleaning
  function and a session that holds the logout key with the value \<^verbatim>\<open>False\<close>, the fast path
  is taken but the key is removed from the session.
\<close>

theorem fast_path_counterexample:
  "(req_user (request logged_in_world) = Some (AuthUser sample_user)
    \<and> META (request logged_in_world) (header stripping_env) = Some ''u1@example.edu''
    \<and> map_of (attrs sample_user) ''username'' = Some (PyStr ''u1@example.edu'')
    \<and> mw_clean_username stripping_env ''u1@example.edu'' (request logged_in_world) = ''u1''
    \<and> ParseAttributes \<in> set (trace (snd (process_request stripping_env logged_in_world)))
    \<and> session (request (snd (process_request stripping_env logged_in_world))) ''shib'' \<noteq> None)
   \<and> (req_user (request stale_flag_world) = Some (AuthUser sample_user)
    \<and> META (request stale_flag_world) (header sample_env) = Some ''u1@example.edu''
    \<and> map_of (attrs sample_user) ''username'' =
        Some (PyStr (mw_clean_username sample_env ''u1@example.edu'' (request stale_flag_world)))
    \<and> session (request stale_flag_world) ''shib_force_reauth'' = Some (SBool False)
    \<and> session (request (snd (process_request sample_env stale_flag_world))) ''shib_force_reauth'' = None)"
  by (simp add: sample_defs process_request_def session_pop_def log_event_def
      already_authenticated_def getattr_def extract_and_login_def parse_attributes_def
      meta_get_def session_set_def Let_def authenticate_def shib_user_params_def
      List.map_filter_simps dict_update_def setup_user_def objects_get_or_create_def
      objects_get_def has_username_def update_user_params_def py_min_def user_save_def
      save_row_def write_row_def violates_def null_violation_def unique_violation_def)



lemma user_save_frame:
  "request (snd (user_save e u w)) = request w
   \<and> (\<exists>evs. trace (snd (user_save e u w)) = trace w @ evs \<and> set evs \<subseteq> range Save)"
  by (auto simp: user_save_def log_event_def Let_def split: sum.splits)

lemma update_user_params_request:
  "request (snd (update_user_params e u p w)) = request w"
  using user_save_frame [of e "u\<lparr>attrs := dict_update (attrs u) p\<rparr>"
      "log_event (UpdateUserParams (pk u) p) w"]
  by (auto simp: update_user_params_def log_event_def Let_def split: sum.splits prod.splits)

lemma update_user_params_events:
  "\<exists>evs. trace (snd (update_user_params e u p w)) = trace w @ UpdateUserParams (pk u) p # evs
     \<and> set evs \<subseteq> range Save"
  using user_save_frame [of e "u\<lparr>attrs := dict_update (attrs u) p\<rparr>"
      "log_event (UpdateUserParams (pk u) p) w"]
  by (auto simp: update_user_params_def log_event_def Let_def split: sum.splits prod.splits)

lemma handle_created_user_frame:
  "request (snd (handle_created_user e u w)) = request w
   \<and> (\<exists>evs. trace (snd (handle_created_user e u w)) = trace w @ evs
         \<and> set evs \<subseteq> range SetUnusablePassword \<union> range Save \<union> range ConfigureUser)"
proof -
  let ?u1 = "u\<lparr>usable_password := False\<rparr>"
  let ?w1 = "log_event (SetUnusablePassword (pk ?u1)) w"
  obtain evs where r: "request (snd (user_save e ?u1 ?w1)) = request ?w1"
    and t: "trace (snd (user_save e ?u1 ?w1)) = trace ?w1 @ evs" and s: "set evs \<subseteq> range Save"
    using user_save_frame by blast
  have w1: "request ?w1 = request w" "trace ?w1 = trace w @ [SetUnusablePassword (pk u)]"
    by (simp_all add: log_event_def)
  show ?thesis
  proof (cases "user_save e ?u1 ?w1")
    case (Pair res w2)
    with r t w1 have w2: "request w2 = request w"
      "trace w2 = trace w @ SetUnusablePassword (pk u) # evs"
      by simp_all
    show ?thesis
    proof (cases res)
      case (Inl er)
      with Pair w2 s show ?thesis
        by (auto simp: handle_created_user_def Let_def)
    next
      case (Inr x)
      with Pair w2 have "request (snd (handle_created_user e u w)) = request w"
        and "trace (snd (handle_created_user e u w)) =
          trace w @ (SetUnusablePassword (pk u) # evs @ [ConfigureUser (pk u)])"
        by (simp_all add: handle_created_user_def Let_def log_event_def)
      moreover have "set (SetUnusablePassword (pk u) # evs @ [ConfigureUser (pk u)])
          \<subseteq> range SetUnusablePassword \<union> range Save \<union> range ConfigureUser"
        using s by auto
      ultimately show ?thesis by blast
    qed
  qed
qed

lemma setup_user_frame:
  "request (snd (setup_user e n d w)) = request w
   \<and> (\<exists>evs. trace (snd (setup_user e n d w)) = trace w @ SetupUser n d # evs
         \<and> set evs \<subseteq> {GetOrCreate n d, Get n} \<union> range SetUnusablePassword \<union> range Save
                       \<union> range ConfigureUser)"
proof (cases "create_unknown_user e")
  case False
  then show ?thesis
    by (auto simp: setup_user_def log_event_def Let_def split: sum.splits error.splits)
next
  case True
  let ?w1 = "log_event (GetOrCreate n d) (log_event (SetupUser n d) w)"
  have w1: "request ?w1 = request w" "trace ?w1 = trace w @ [SetupUser n d, GetOrCreate n d]"
    by (simp_all add: log_event_def)
  show ?thesis
  proof (cases "objects_get_or_create e n d (store ?w1)")
    case (Pair res rows)
    show ?thesis
    proof (cases res)
      case (Inl er)
      with Pair True w1 show ?thesis
        by (simp add: setup_user_def Let_def)
    next
      case (Inr uc)
      obtain u created where uc: "uc = (u, created)" by (cases uc)
      show ?thesis
      proof (cases created)
        case False
        with uc Inr Pair True w1 show ?thesis
          by (simp add: setup_user_def Let_def)
      next
        case c: True
        let ?w2 = "?w1\<lparr>store := rows\<rparr>"
        obtain evs where "request (snd (handle_created_user e u ?w2)) = request ?w2"
          and "trace (snd (handle_created_user e u ?w2)) = trace ?w2 @ evs"
          and s: "set evs \<subseteq> range SetUnusablePassword \<union> range Save \<union> range ConfigureUser"
          using handle_created_user_frame by blast
        with w1 have h: "request (snd (handle_created_user e u ?w2)) = request w"
          "trace (snd (handle_created_user e u ?w2)) =
             trace w @ SetupUser n d # (GetOrCreate n d # evs)"
          by simp_all
        have "snd (setup_user e n d w) = snd (handle_created_user e u ?w2)"
          using c uc Inr Pair True
          by (simp add: setup_user_def Let_def split: prod.splits sum.splits)
        with h have "request (snd (setup_user e n d w)) = request w"
          and "trace (snd (setup_user e n d w)) =
             trace w @ SetupUser n d # (GetOrCreate n d # evs)"
          by simp_all
        moreover have "set (GetOrCreate n d # evs) \<subseteq> {GetOrCreate n d, Get n}
            \<union> range SetUnusablePassword \<union> range Save \<union> range ConfigureUser"
          using s by auto
        ultimately show ?thesis by blast
      qed
    qed
  qed
qed

lemma authenticate_after_setup:
  assumes "remote_user \<noteq> []" and "field_names e \<noteq> []"
    and "setup_user e (clean_username e remote_user) (shib_user_params (field_names e) shib_meta)
           (log_event (Authenticate remote_user shib_meta) w) = (Inr (Some u), w1)"
  shows "snd (authenticate e remote_user shib_meta w) =
           snd (update_user_params e u (shib_user_params (field_names e) shib_meta) w1)"
    and "fst (authenticate e remote_user shib_meta w) =
           (case fst (update_user_params e u (shib_user_params (field_names e) shib_meta) w1) of
              Inl er \<Rightarrow> Inl er
            | Inr u' \<Rightarrow> Inr (if user_can_authenticate e u' then Some u' else None))"
  using assms
  by (auto simp: authenticate_def Let_def split: prod.splits sum.splits)

lemma authenticate_no_user:
  assumes "setup_user e (clean_username e remote_user) (shib_user_params (field_names e) shib_meta)
           (log_event (Authenticate remote_user shib_meta) w) = (res, w1)"
    and "\<forall>u. res \<noteq> Inr (Some u)"
    and "remote_user \<noteq> []" and "field_names e \<noteq> []"
  shows "snd (authenticate e remote_user shib_meta w) = w1"
    and "\<forall>u. fst (authenticate e remote_user shib_meta w) \<noteq> Inr (Some u)"
  using assms
  by (auto simp: authenticate_def Let_def split: sum.splits option.splits)

lemma authenticate_calls:
  assumes "remote_user \<noteq> []" and "field_names e \<noteq> []"
  shows "\<exists>rest. trace (snd (authenticate e remote_user shib_meta w)) =
           trace w @ Authenticate remote_user shib_meta
             # SetupUser (clean_username e remote_user)
                 (shib_user_params (field_names e) shib_meta) # rest
         \<and> (\<forall>n d. SetupUser n d \<notin> set rest)
         \<and> (\<forall>k p. UpdateUserParams k p \<in> set rest \<longrightarrow>
               p = shib_user_params (field_names e) shib_meta)
         \<and> (\<forall>u. fst (authenticate e remote_user shib_meta w) = Inr (Some u) \<longrightarrow>
               (\<exists>k. UpdateUserParams k (shib_user_params (field_names e) shib_meta) \<in> set rest))"
proof -
  let ?w = "log_event (Authenticate remote_user shib_meta) w"
  let ?p = "shib_user_params (field_names e) shib_meta"
  let ?n = "clean_username e remote_user"
  have t: "trace ?w = trace w @ [Authenticate remote_user shib_meta]"
    by (simp add: log_event_def)
  obtain evs where s: "trace (snd (setup_user e ?n ?p ?w)) = trace ?w @ SetupUser ?n ?p # evs"
    and evs: "set evs \<subseteq> {GetOrCreate ?n ?p, Get ?n} \<union> range SetUnusablePassword \<union> range Save
                   \<union> range ConfigureUser"
    using setup_user_frame by blast
  from evs have no: "SetupUser n d \<notin> set evs" "UpdateUserParams k p \<notin> set evs" for n d k p
    by auto
  obtain res w1 where sr: "setup_user e ?n ?p ?w = (res, w1)"
    by (cases "setup_user e ?n ?p ?w")
  with s t have w1: "trace w1 = trace w @ Authenticate remote_user shib_meta # SetupUser ?n ?p # evs"
    by simp
  show ?thesis
  proof (cases "\<exists>u. res = Inr (Some u)")
    case False
    then have "\<forall>u. res \<noteq> Inr (Some u)" by simp
    from authenticate_no_user [OF sr this assms] w1 no show ?thesis by auto
  next
    case True
    then obtain u where "res = Inr (Some u)" by blast
    with sr have sr': "setup_user e ?n ?p ?w = (Inr (Some u), w1)" by simp
    obtain evs' where u: "trace (snd (update_user_params e u ?p w1)) =
        trace w1 @ UpdateUserParams (pk u) ?p # evs'" and evs': "set evs' \<subseteq> range Save"
      using update_user_params_events by blast
    from evs' have no': "SetupUser n d \<notin> set evs'" "UpdateUserParams k p \<notin> set evs'" for n d k p
      by auto
    from authenticate_after_setup(1) [OF assms sr'] u w1
    have "trace (snd (authenticate e remote_user shib_meta w)) =
        trace w @ Authenticate remote_user shib_meta # SetupUser ?n ?p
          # (evs @ UpdateUserParams (pk u) ?p # evs')"
      by simp
    moreover have "\<forall>n d. SetupUser n d \<notin> set (evs @ UpdateUserParams (pk u) ?p # evs')"
      using no no' by simp
    moreover have "\<forall>k p. UpdateUserParams k p \<in> set (evs @ UpdateUserParams (pk u) ?p # evs') \<longrightarrow>
        p = ?p"
      using no no' by simp
    moreover have "UpdateUserParams (pk u) ?p \<in> set (evs @ UpdateUserParams (pk u) ?p # evs')"
      by simp
    ultimately show ?thesis by blast
  qed
qed

lemma authenticate_frame:
  "request (snd (authenticate e r sm w)) = request w
   \<and> (\<exists>evs. trace (snd (authenticate e r sm w)) = trace w @ Authenticate r sm # evs)"
proof (cases "r = [] \<or> field_names e = []")
  case True
  then show ?thesis by (auto simp: authenticate_def log_event_def Let_def)
next
  case False
  then have r: "r \<noteq> []" and f: "field_names e \<noteq> []" by simp_all
  let ?w = "log_event (Authenticate r sm) w"
  let ?p = "shib_user_params (field_names e) sm"
  have rq: "request (snd (setup_user e (clean_username e r) ?p ?w)) = request w"
    using setup_user_frame [of e "clean_username e r" ?p ?w] by (simp add: log_event_def)
  obtain res w1 where sr: "setup_user e (clean_username e r) ?p ?w = (res, w1)"
    by (cases "setup_user e (clean_username e r) ?p ?w")
  with rq have w1: "request w1 = request w" by simp
  have "request (snd (authenticate e r sm w)) = request w"
  proof (cases "\<exists>u. res = Inr (Some u)")
    case False
    then have "\<forall>u. res \<noteq> Inr (Some u)" by simp
    from authenticate_no_user(1) [OF sr this r f] w1 show ?thesis by simp
  next
    case True
    then obtain u where "res = Inr (Some u)" by blast
    with sr have "setup_user e (clean_username e r) ?p ?w = (Inr (Some u), w1)" by simp
    from authenticate_after_setup(1) [OF r f this] w1 show ?thesis
      by (simp add: update_user_params_request)
  qed
  moreover from authenticate_calls [OF r f, of sm w]
  have "\<exists>evs. trace (snd (authenticate e r sm w)) = trace w @ Authenticate r sm # evs"
    by blast
  ultimately show ?thesis by blast
qed


lemma extract_and_login_passed:
  assumes "\<not> snd (parse_attributes e (request w2))"
  shows "extract_and_login e username w2 =
     (case authenticate e username (fst (parse_attributes e (request w2)))
             (session_set ''shib'' (SDict (fst (parse_attributes e (request w2))))
                (log_event ParseAttributes w2)) of
        (Inl er, w3) \<Rightarrow> (Inl er, w3)
      | (Inr None, w3) \<Rightarrow> (Inr (), w3)
      | (Inr (Some u), w3) \<Rightarrow>
          (Inr (),
           w3\<lparr>request := login e ((request w3)\<lparr>req_user := Some (AuthUser u)\<rparr>) u,
              trace := trace w3 @ [Login (pk u), MakeProfile (pk u), SetupSession]\<rparr>))"
proof -
  obtain sm err where "parse_attributes e (request w2) = (sm, err)"
    by (cases "parse_attributes e (request w2)")
  with assms show ?thesis
    by (simp add: extract_and_login_def Let_def log_event_def
        split: prod.splits sum.splits option.splits)
qed

lemma extract_and_login_passed_frame:
  assumes "\<not> snd (parse_attributes e (request w2))"
  shows "(\<exists>rest. trace (snd (extract_and_login e username w2)) =
            trace w2 @ ParseAttributes
              # SessionSet ''shib'' (SDict (fst (parse_attributes e (request w2))))
              # Authenticate username (fst (parse_attributes e (request w2))) # rest)
       \<and> (case fst (authenticate e username (fst (parse_attributes e (request w2)))
                      (session_set ''shib'' (SDict (fst (parse_attributes e (request w2))))
                         (log_event ParseAttributes w2))) of
             Inl er \<Rightarrow>
               fst (extract_and_login e username w2) = Inl er
               \<and> request (snd (extract_and_login e username w2)) =
                   (request w2)\<lparr>session := (session (request w2))
                      (''shib'' \<mapsto> SDict (fst (parse_attributes e (request w2))))\<rparr>
           | Inr None \<Rightarrow>
               fst (extract_and_login e username w2) = Inr ()
               \<and> request (snd (extract_and_login e username w2)) =
                   (request w2)\<lparr>session := (session (request w2))
                      (''shib'' \<mapsto> SDict (fst (parse_attributes e (request w2))))\<rparr>
           | Inr (Some u) \<Rightarrow>
               fst (extract_and_login e username w2) = Inr ()
               \<and> request (snd (extract_and_login e username w2)) =
                   login e ((request w2)\<lparr>session := (session (request w2))
                      (''shib'' \<mapsto> SDict (fst (parse_attributes e (request w2)))),
                      req_user := Some (AuthUser u)\<rparr>) u)"
proof -
  let ?sm = "fst (parse_attributes e (request w2))"
  let ?w = "session_set ''shib'' (SDict ?sm) (log_event ParseAttributes w2)"
  have t: "trace ?w = trace w2 @ [ParseAttributes, SessionSet ''shib'' (SDict ?sm)]"
    and r: "request ?w = (request w2)\<lparr>session := (session (request w2))(''shib'' \<mapsto> SDict ?sm)\<rparr>"
    by (simp_all add: session_set_def log_event_def)
  obtain evs where a: "request (snd (authenticate e username ?sm ?w)) = request ?w"
    and b: "trace (snd (authenticate e username ?sm ?w)) = trace ?w @ Authenticate username ?sm # evs"
    using authenticate_frame by blast
  obtain res w3 where au: "authenticate e username ?sm ?w = (res, w3)"
    by (cases "authenticate e username ?sm ?w")
  with a b t r have w3: "request w3 =
      (request w2)\<lparr>session := (session (request w2))(''shib'' \<mapsto> SDict ?sm)\<rparr>"
    "trace w3 = trace w2 @ ParseAttributes # SessionSet ''shib'' (SDict ?sm)
       # Authenticate username ?sm # evs"
    by simp_all
  note p = extract_and_login_passed [OF assms, of username]
  show ?thesis
  proof (cases res)
    case (Inl er)
    with p au w3 show ?thesis by simp
  next
    case (Inr uo)
    show ?thesis
    proof (cases uo)
      case None
      with Inr p au w3 show ?thesis by simp
    next
      case (Some u)
      with Inr p au w3 show ?thesis by simp
    qed
  qed
qed

text \<open>
  C6. A request that gets past the header check and the check of the current identity
  parses the attributes and writes them into the session under \<^verbatim>\<open>shib\<close> before anything else,
  whether validation failed or not. When validation failed, it then raises the validation
  error that carries the parsed attributes, with the attributes in the session, no further
  call, and the identity of the request and the user store as they were. When validation
  passed, the next call is \<^verbatim>\<open>authenticate\<close>, made on the session that holds the attributes,
  and the request that results is that one, logged in when a user was returned.
\<close>

theorem attributes_stored_before_validation:
  assumes "req_user (request w) \<noteq> None"
    and "session (request w) (LOGOUT_SESSION_KEY e) \<noteq> Some (SBool True)"
    and "META (request w) (header e) = Some username"
    and "username \<noteq> []"
    and "already_authenticated e username (session_pop (LOGOUT_SESSION_KEY e) w) = (Inr False, w2)"
  shows "(\<exists>pre post.
            trace w2 = trace w @ SessionPop (LOGOUT_SESSION_KEY e) # pre
          \<and> set pre \<subseteq> {RemoveInvalidUser}
          \<and> trace (snd (process_request e w)) =
              trace w2 @ ParseAttributes
                # SessionSet ''shib'' (SDict (fst (parse_attributes e (request w2)))) # post
          \<and> (snd (parse_attributes e (request w2)) \<longrightarrow> post = [])
          \<and> (\<not> snd (parse_attributes e (request w2)) \<longrightarrow>
               (\<exists>rest. post = Authenticate username (fst (parse_attributes e (request w2))) # rest)))
       \<and> (snd (parse_attributes e (request w2)) \<longrightarrow>
            fst (process_request e w) =
              Inl (ShibbolethValidationError (fst (parse_attributes e (request w2))))
          \<and> session (request (snd (process_request e w))) ''shib'' =
              Some (SDict (fst (parse_attributes e (request w2))))
          \<and> req_user (request (snd (process_request e w))) = req_user (request w2)
          \<and> store (snd (process_request e w)) = store w)
       \<and> (\<not> snd (parse_attributes e (request w2)) \<longrightarrow>
            (case fst (authenticate e username (fst (parse_attributes e (request w2)))
                        (session_set ''shib'' (SDict (fst (parse_attributes e (request w2))))
                           (log_event ParseAttributes w2))) of
               Inl er \<Rightarrow>
                 fst (process_request e w) = Inl er
                 \<and> request (snd (process_request e w)) =
                     (request w2)\<lparr>session := (session (request w2))
                        (''shib'' \<mapsto> SDict (fst (parse_attributes e (request w2))))\<rparr>
             | Inr None \<Rightarrow>
                 fst (process_request e w) = Inr ()
                 \<and> request (snd (process_request e w)) =
                     (request w2)\<lparr>session := (session (request w2))
                        (''shib'' \<mapsto> SDict (fst (parse_attributes e (request w2))))\<rparr>
             | Inr (Some u) \<Rightarrow>
                 fst (process_request e w) = Inr ()
                 \<and> request (snd (process_request e w)) =
                     login e ((request w2)\<lparr>session := (session (request w2))
                        (''shib'' \<mapsto> SDict (fst (parse_attributes e (request w2)))),
                        req_user := Some (AuthUser u)\<rparr>) u))"
proof -
  let ?w1 = "session_pop (LOGOUT_SESSION_KEY e) w"
  let ?sm = "fst (parse_attributes e (request w2))"
  have m: "META (request ?w1) (header e) = Some username"
    using assms(3) by (simp add: session_pop_def log_event_def)
  have p: "process_request e w = extract_and_login e username w2"
    using assms(1,2,4,5) m by (auto simp: process_request_def Let_def)
  have t1: "trace ?w1 = trace w @ [SessionPop (LOGOUT_SESSION_KEY e)]"
    and s1: "store ?w1 = store w"
    by (simp_all add: session_pop_def log_event_def)
  from already_authenticated_False [OF assms(5)] t1 s1
  obtain pre where pre: "trace w2 = trace w @ SessionPop (LOGOUT_SESSION_KEY e) # pre"
    "set pre \<subseteq> {RemoveInvalidUser}" and s2: "store w2 = store w"
    by auto
  show ?thesis
  proof (cases "snd (parse_attributes e (request w2))")
    case True
    from extract_and_login_failed [OF True, of username] p
    have r: "process_request e w =
        (Inl (ShibbolethValidationError ?sm),
         session_set ''shib'' (SDict ?sm) (log_event ParseAttributes w2))"
      by simp
    have "trace (snd (process_request e w)) =
        trace w2 @ ParseAttributes # SessionSet ''shib'' (SDict ?sm) # []"
      unfolding r by (simp add: session_set_def log_event_def)
    with pre True have "\<exists>pre post.
            trace w2 = trace w @ SessionPop (LOGOUT_SESSION_KEY e) # pre
          \<and> set pre \<subseteq> {RemoveInvalidUser}
          \<and> trace (snd (process_request e w)) =
              trace w2 @ ParseAttributes # SessionSet ''shib'' (SDict ?sm) # post
          \<and> (snd (parse_attributes e (request w2)) \<longrightarrow> post = [])
          \<and> (\<not> snd (parse_attributes e (request w2)) \<longrightarrow>
               (\<exists>rest. post = Authenticate username ?sm # rest))"
      by blast
    moreover have "fst (process_request e w) = Inl (ShibbolethValidationError ?sm)
          \<and> session (request (snd (process_request e w))) ''shib'' = Some (SDict ?sm)
          \<and> req_user (request (snd (process_request e w))) = req_user (request w2)
          \<and> store (snd (process_request e w)) = store w"
      unfolding r using s2 by (simp add: session_set_def log_event_def)
    ultimately show ?thesis using True by blast
  next
    case False
    note f = extract_and_login_passed_frame [OF False, of username, folded p]
    from f obtain rest where "trace (snd (process_request e w)) =
        trace w2 @ ParseAttributes # SessionSet ''shib'' (SDict ?sm)
          # Authenticate username ?sm # rest"
      by blast
    with pre False have "\<exists>pre post.
            trace w2 = trace w @ SessionPop (LOGOUT_SESSION_KEY e) # pre
          \<and> set pre \<subseteq> {RemoveInvalidUser}
          \<and> trace (snd (process_request e w)) =
              trace w2 @ ParseAttributes # SessionSet ''shib'' (SDict ?sm) # post
          \<and> (snd (parse_attributes e (request w2)) \<longrightarrow> post = [])
          \<and> (\<not> snd (parse_attributes e (request w2)) \<longrightarrow>
               (\<exists>rest. post = Authenticate username ?sm # rest))"
      by blast
    with f False show ?thesis by blast
  qed
qed


theorem attributes_stored_before_validation_witness:
  "snd (parse_attributes sample_env incomplete_request)
   \<and> fst (process_request sample_env incomplete_world) =
       Inl (ShibbolethValidationError
         [(''email'', PyNone), (''username'', PyStr ''u1@example.edu''), (''barcode'', PyStr [])])
   \<and> session (request (snd (process_request sample_env incomplete_world))) ''shib'' =
       Some (SDict
         [(''email'', PyNone), (''username'', PyStr ''u1@example.edu''), (''barcode'', PyStr [])])
   \<and> req_user (request (snd (process_request sample_env incomplete_world))) = Some AnonymousUser
   \<and> \<not> snd (parse_attributes sample_env sample_request)
   \<and> fst (process_request sample_env sample_world) = Inr ()
   \<and> session (request (snd (process_request sample_env sample_world))) ''shib'' =
       Some (SDict
         [(''email'', PyStr ''u1@example.edu''), (''username'', PyStr ''u1@example.edu''),
          (''barcode'', PyNone)])
   \<and> req_user (request (snd (process_request sample_env sample_world))) =
       Some (AuthUser (sample_user\<lparr>attrs := [(''username'', PyStr ''u1@example.edu''),
                                                (''email'', PyStr ''u1@example.edu'')]\<rparr>))"
proof -
  let ?i2 = "session_pop (LOGOUT_SESSION_KEY sample_env) incomplete_world"
  let ?s2 = "session_pop (LOGOUT_SESSION_KEY sample_env) sample_world"
  let ?sm = "[(''email'', PyStr ''u1@example.edu''), (''username'', PyStr ''u1@example.edu''),
              (''barcode'', PyNone)]"
  let ?u' = "sample_user\<lparr>attrs := [(''username'', PyStr ''u1@example.edu''),
                                       (''email'', PyStr ''u1@example.edu'')]\<rparr>"
  have 1: "req_user (request incomplete_world) \<noteq> None"
    and 2: "session (request incomplete_world) (LOGOUT_SESSION_KEY sample_env) \<noteq> Some (SBool True)"
    and 3: "META (request incomplete_world) (header sample_env) = Some ''u1@example.edu''"
    by (simp_all add: sample_defs)
  have 4: "''u1@example.edu'' \<noteq> []" by simp
  have 5: "already_authenticated sample_env ''u1@example.edu'' ?i2 = (Inr False, ?i2)"
    by (simp add: sample_defs already_authenticated_def session_pop_def log_event_def)
  have r: "request ?i2 = incomplete_request"
    by (simp add: sample_defs session_pop_def log_event_def fun_eq_iff)
  have p: "parse_attributes sample_env incomplete_request =
      ([(''email'', PyNone), (''username'', PyStr ''u1@example.edu''), (''barcode'', PyStr [])], True)"
    by (simp add: sample_defs parse_attributes_def meta_get_def)
  have u: "req_user incomplete_request = Some AnonymousUser"
    by (simp add: sample_defs)
  have failing: "fst (process_request sample_env incomplete_world) =
       Inl (ShibbolethValidationError
         [(''email'', PyNone), (''username'', PyStr ''u1@example.edu''), (''barcode'', PyStr [])])
   \<and> session (request (snd (process_request sample_env incomplete_world))) ''shib'' =
       Some (SDict
         [(''email'', PyNone), (''username'', PyStr ''u1@example.edu''), (''barcode'', PyStr [])])
   \<and> req_user (request (snd (process_request sample_env incomplete_world))) = Some AnonymousUser"
    using attributes_stored_before_validation [OF 1 2 3 4 5, THEN conjunct2, THEN conjunct1]
    unfolding r p using u by simp
  have 1: "req_user (request sample_world) \<noteq> None"
    and 2: "session (request sample_world) (LOGOUT_SESSION_KEY sample_env) \<noteq> Some (SBool True)"
    and 3: "META (request sample_world) (header sample_env) = Some ''u1@example.edu''"
    by (simp_all add: sample_defs)
  have 5: "already_authenticated sample_env ''u1@example.edu'' ?s2 = (Inr False, ?s2)"
    by (simp add: sample_defs already_authenticated_def session_pop_def log_event_def)
  have r': "request ?s2 = sample_request"
    by (simp add: sample_defs session_pop_def log_event_def fun_eq_iff)
  have p': "parse_attributes sample_env sample_request = (?sm, False)"
    by (simp add: sample_defs parse_attributes_def meta_get_def Let_def)
  have au: "fst (authenticate sample_env ''u1@example.edu'' ?sm
      (session_set ''shib'' (SDict ?sm) (log_event ParseAttributes ?s2))) = Inr (Some ?u')"
    by (simp add: sample_defs session_pop_def session_set_def log_event_def authenticate_def
        shib_user_params_def List.map_filter_simps dict_update_def setup_user_def
        objects_get_or_create_def objects_get_def has_username_def update_user_params_def
        getattr_def py_min_def user_save_def save_row_def write_row_def violates_def
        null_violation_def unique_violation_def Let_def)
  have lg: "login sample_env rq x = rq" for rq x
    by (simp add: sample_defs)
  have passing: "fst (process_request sample_env sample_world) = Inr ()
   \<and> request (snd (process_request sample_env sample_world)) =
       sample_request\<lparr>session := (session sample_request)(''shib'' \<mapsto> SDict ?sm),
                      req_user := Some (AuthUser ?u')\<rparr>"
    using attributes_stored_before_validation [OF 1 2 3 4 5, THEN conjunct2, THEN conjunct2]
    unfolding r' p' by (simp add: au lg)
  then have "fst (process_request sample_env sample_world) = Inr ()
   \<and> session (request (snd (process_request sample_env sample_world))) ''shib'' = Some (SDict ?sm)
   \<and> req_user (request (snd (process_request sample_env sample_world))) = Some (AuthUser ?u')"
    by simp
  with failing p p' show ?thesis by simp
qed


lemma update_user_params_store:
  "store (snd (update_user_params e u p w)) = store w
   \<or> store (snd (update_user_params e u p w)) =
       write_row (u\<lparr>attrs := dict_update (attrs u) p\<rparr>) (store w)"
  by (auto simp: update_user_params_def user_save_def save_row_def log_event_def Let_def
      split: sum.splits)

lemma write_row_keeps:
  assumes "r \<in> set rows" and "pk r = k" and "P r" and "pk u = k \<longrightarrow> P u"
  shows "\<exists>r' \<in> set (write_row u rows). pk r' = k \<and> P r'"
proof (cases "pk u = k")
  case True
  with assms(4) write_row_mem [of u rows] show ?thesis by blast
next
  case False
  with assms have "r \<in> set (write_row u rows)"
    by (force simp: write_row_def)
  with assms show ?thesis by blast
qed

lemma authenticate_creates:
  assumes r: "remote_user \<noteq> []" and f: "field_names e \<noteq> []"
    and c: "create_unknown_user e"
    and n: "filter (has_username (clean_username e remote_user)) (store w) = []"
    and k: "''username'' \<in> set (field_names e)"
    and v: "map_of shib_meta ''username'' = Some v"
    and ok: "\<not> violates e
               (new_row e (dict_update [(''username'', PyStr (clean_username e remote_user))]
                             (shib_user_params (field_names e) shib_meta)) (store w))
               (store w)"
  shows "\<exists>row \<in> set (store (snd (authenticate e remote_user shib_meta w))).
           pk row = fresh_pk (store w) \<and> map_of (attrs row) ''username'' = Some v"
proof -
  let ?w = "log_event (Authenticate remote_user shib_meta) w"
  let ?p = "shib_user_params (field_names e) shib_meta"
  let ?n = "clean_username e remote_user"
  let ?inner = "dict_update [(''username'', PyStr ?n)] ?p"
  let ?created = "(new_row e ?inner (store w))\<lparr>usable_password := False\<rparr>"
  have st: "store ?w = store w" "request ?w = request w"
    by (simp_all add: log_event_def)
  have mem: "(''username'', v) \<in> set ?p"
    using k v by (rule shib_user_params_mem)
  have dp: "distinct (map fst ?p)" by (rule distinct_shib_user_params)
  have "map_of ?inner ''username'' = Some v"
    using dp mem by (rule dict_update_applies)
  then have "(''username'', v) \<in> set ?inner" by (rule map_of_SomeD)
  moreover have "distinct (map fst ?inner)" by (rule distinct_dict_update) simp
  ultimately have cu: "map_of (attrs ?created) ''username'' = Some v"
    by (simp add: new_row_def dict_update_applies)
  have pkc: "pk ?created = fresh_pk (store w)" by (simp add: new_row_def)
  from n have n': "filter (has_username ?n) (store ?w) = []" by (simp add: st)
  from ok have ok': "\<not> violates e (new_row e ?inner (store ?w)) (store ?w)" by (simp add: st)
  obtain u w1 where su: "setup_user e ?n ?p ?w = (Inr (Some u), w1)"
    and s1: "store w1 = store w @ [?created]"
    using setup_user_create [OF c n' ok'] by (simp add: st)
  have in1: "?created \<in> set (store w1)" by (simp add: s1)
  let ?u' = "u\<lparr>attrs := dict_update (attrs u) ?p\<rparr>"
  have pu: "map_of (attrs ?u') ''username'' = Some v"
    using dp mem by (simp add: dict_update_applies)
  have fin: "store (snd (authenticate e remote_user shib_meta w)) =
      store (snd (update_user_params e u ?p w1))"
    using authenticate_after_setup(1) [OF r f su] by simp
  from update_user_params_store [of e u ?p w1] show ?thesis
  proof
    assume "store (snd (update_user_params e u ?p w1)) = store w1"
    with fin in1 cu pkc show ?thesis by (intro bexI [of _ ?created]) simp_all
  next
    assume "store (snd (update_user_params e u ?p w1)) = write_row ?u' (store w1)"
    moreover have "\<exists>r' \<in> set (write_row ?u' (store w1)).
        pk r' = fresh_pk (store w) \<and> map_of (attrs r') ''username'' = Some v"
      using in1 pkc cu by (rule write_row_keeps) (use pu in simp_all)
    ultimately show ?thesis using fin by simp
  qed
qed

lemma authenticate_create_refused:
  assumes r: "remote_user \<noteq> []" and f: "field_names e \<noteq> []"
    and c: "create_unknown_user e"
    and n: "filter (has_username (clean_username e remote_user)) (store w) = []"
    and bad: "violates e
               (new_row e (dict_update [(''username'', PyStr (clean_username e remote_user))]
                             (shib_user_params (field_names e) shib_meta)) (store w))
               (store w)"
  shows "fst (authenticate e remote_user shib_meta w) = Inl IntegrityError"
    and "store (snd (authenticate e remote_user shib_meta w)) = store w"
proof -
  let ?w = "log_event (Authenticate remote_user shib_meta) w"
  have st: "store ?w = store w" by (simp add: log_event_def)
  from n have n': "filter (has_username (clean_username e remote_user)) (store ?w) = []"
    by (simp add: st)
  from bad have bad': "violates e
      (new_row e (dict_update [(''username'', PyStr (clean_username e remote_user))]
                    (shib_user_params (field_names e) shib_meta)) (store ?w)) (store ?w)"
    by (simp add: st)
  note su = setup_user_refused [OF c n' bad']
  show "fst (authenticate e remote_user shib_meta w) = Inl IntegrityError"
    using r f by (simp add: authenticate_def Let_def su)
  show "store (snd (authenticate e remote_user shib_meta w)) = store w"
    using r f by (simp add: authenticate_def Let_def su st)
qed

lemma authenticate_found:
  assumes "filter (has_username (clean_username e remote_user)) (store w) = [u]"
  shows "setup_user e (clean_username e remote_user) p
           (log_event (Authenticate remote_user shib_meta) w) =
         (Inr (Some u),
          w\<lparr>trace := trace w @
               [Authenticate remote_user shib_meta, SetupUser (clean_username e remote_user) p,
                if create_unknown_user e then GetOrCreate (clean_username e remote_user) p
                else Get (clean_username e remote_user)]\<rparr>)"
proof -
  let ?w = "log_event (Authenticate remote_user shib_meta) w"
  from assms have "filter (has_username (clean_username e remote_user)) (store ?w) = [u]"
    by (simp add: log_event_def)
  from setup_user_found [OF this] show ?thesis
    by (simp add: log_event_def)
qed

lemma authenticate_reconciles:
  assumes r: "remote_user \<noteq> []" and f: "field_names e \<noteq> []"
    and n: "filter (has_username (clean_username e remote_user)) (store w) = [u]"
    and k: "''username'' \<in> set (field_names e)"
    and v: "map_of shib_meta ''username'' = Some v"
    and d: "v \<noteq> PyStr (clean_username e remote_user)"
    and a: "fst ` set (shib_user_params (field_names e) shib_meta) \<subseteq> fst ` set (attrs u)"
    and ok: "\<not> violates e
               (u\<lparr>attrs := dict_update (attrs u) (shib_user_params (field_names e) shib_meta)\<rparr>)
               (filter (\<lambda>r. pk r \<noteq> pk u) (store w))"
  shows "fst (authenticate e remote_user shib_meta w) =
           Inr (if user_can_authenticate e
                     (u\<lparr>attrs := dict_update (attrs u) (shib_user_params (field_names e) shib_meta)\<rparr>)
                then Some (u\<lparr>attrs := dict_update (attrs u)
                                        (shib_user_params (field_names e) shib_meta)\<rparr>)
                else None)"
    and "store (snd (authenticate e remote_user shib_meta w)) =
           write_row (u\<lparr>attrs := dict_update (attrs u) (shib_user_params (field_names e) shib_meta)\<rparr>)
             (store w)"
    and "u\<lparr>attrs := dict_update (attrs u) (shib_user_params (field_names e) shib_meta)\<rparr>
           \<in> set (store (snd (authenticate e remote_user shib_meta w)))"
    and "map_of (dict_update (attrs u) (shib_user_params (field_names e) shib_meta)) ''username'' =
           Some v"
proof -
  let ?p = "shib_user_params (field_names e) shib_meta"
  let ?n = "clean_username e remote_user"
  let ?u' = "u\<lparr>attrs := dict_update (attrs u) ?p\<rparr>"
  let ?w1 = "w\<lparr>trace := trace w @
      [Authenticate remote_user shib_meta, SetupUser ?n ?p,
       if create_unknown_user e then GetOrCreate ?n ?p else Get ?n]\<rparr>"
  have mem: "(''username'', v) \<in> set ?p"
    using k v by (rule shib_user_params_mem)
  have dp: "distinct (map fst ?p)" by (rule distinct_shib_user_params)
  from n have "u \<in> set (filter (has_username ?n) (store w))" by simp
  then have un: "has_username ?n u" by simp
  from un d have "map_of (attrs u) ''username'' \<noteq> Some v"
    by (simp add: has_username_def)
  with mem have diff: "\<exists>(k, v) \<in> set ?p. map_of (attrs u) k \<noteq> Some v" by blast
  note su = authenticate_found [OF n, of ?p shib_meta]
  from ok have ok1: "\<not> violates e ?u' (filter (\<lambda>r. pk r \<noteq> pk u) (store ?w1))" by simp
  have up: "update_user_params e u ?p ?w1 =
      (Inr ?u', ?w1\<lparr>store := write_row ?u' (store ?w1),
                   trace := trace ?w1 @ [UpdateUserParams (pk u) ?p, Save (pk u)]\<rparr>)"
    using a diff ok1 by (rule update_user_params_differs)
  show "fst (authenticate e remote_user shib_meta w) =
      Inr (if user_can_authenticate e ?u' then Some ?u' else None)"
    using authenticate_after_setup(2) [OF r f su] by (simp add: up)
  show s: "store (snd (authenticate e remote_user shib_meta w)) = write_row ?u' (store w)"
    using authenticate_after_setup(1) [OF r f su] by (simp add: up)
  from write_row_mem [of ?u' "store w"] s
  show "?u' \<in> set (store (snd (authenticate e remote_user shib_meta w)))" by simp
  show "map_of (dict_update (attrs u) ?p) ''username'' = Some v"
    using dp mem by (rule dict_update_applies)
qed

lemma authenticate_reconcile_refused:
  assumes r: "remote_user \<noteq> []" and f: "field_names e \<noteq> []"
    and n: "filter (has_username (clean_username e remote_user)) (store w) = [u]"
    and k: "''username'' \<in> set (field_names e)"
    and v: "map_of shib_meta ''username'' = Some v"
    and d: "v \<noteq> PyStr (clean_username e remote_user)"
    and a: "fst ` set (shib_user_params (field_names e) shib_meta) \<subseteq> fst ` set (attrs u)"
    and bad: "violates e
               (u\<lparr>attrs := dict_update (attrs u) (shib_user_params (field_names e) shib_meta)\<rparr>)
               (filter (\<lambda>r. pk r \<noteq> pk u) (store w))"
  shows "fst (authenticate e remote_user shib_meta w) = Inl IntegrityError"
    and "store (snd (authenticate e remote_user shib_meta w)) = store w"
proof -
  let ?p = "shib_user_params (field_names e) shib_meta"
  let ?n = "clean_username e remote_user"
  let ?u' = "u\<lparr>attrs := dict_update (attrs u) ?p\<rparr>"
  let ?w1 = "w\<lparr>trace := trace w @
      [Authenticate remote_user shib_meta, SetupUser ?n ?p,
       if create_unknown_user e then GetOrCreate ?n ?p else Get ?n]\<rparr>"
  have mem: "(''username'', v) \<in> set ?p"
    using k v by (rule shib_user_params_mem)
  from n have "u \<in> set (filter (has_username ?n) (store w))" by simp
  then have un: "has_username ?n u" by simp
  from un d have "map_of (attrs u) ''username'' \<noteq> Some v"
    by (simp add: has_username_def)
  with mem have diff: "\<exists>(k, v) \<in> set ?p. map_of (attrs u) k \<noteq> Some v" by blast
  note su = authenticate_found [OF n, of ?p shib_meta]
  from bad have bad1: "violates e ?u' (filter (\<lambda>r. pk r \<noteq> pk u) (store ?w1))" by simp
  have up: "update_user_params e u ?p ?w1 =
      (Inl IntegrityError, ?w1\<lparr>trace := trace ?w1 @ [UpdateUserParams (pk u) ?p, Save (pk u)]\<rparr>)"
    using a diff bad1 by (rule update_user_params_refused)
  show "fst (authenticate e remote_user shib_meta w) = Inl IntegrityError"
    using authenticate_after_setup(2) [OF r f su] by (simp add: up)
  show "store (snd (authenticate e remote_user shib_meta w)) = store w"
    using authenticate_after_setup(1) [OF r f su] by (simp add: up)
qed


text \<open>
  C9, as amended. In \<^verbatim>\<open>authenticate\<close> the dictionary handed to \<^verbatim>\<open>setup_user\<close> and to
  \<^verbatim>\<open>update_user_params\<close> is the restriction of \<^verbatim>\<open>shib_meta\<close> to the field names of the user
  model. When \<^verbatim>\<open>username\<close> is a field and a key of \<^verbatim>\<open>shib_meta\<close>: a row created because no row
  has the cleaned name carries that value as its username, not the cleaned lookup key,
  provided the table accepts the new row; a row found under the cleaned name is saved with
  its username overwritten by that value when the two differ, provided the table accepts
  the updated row. When the table refuses the row, \<^verbatim>\<open>IntegrityError\<close> is raised and the
  store is unchanged.
\<close>

theorem authenticate_field_values:
  assumes "remote_user \<noteq> []" and "field_names e \<noteq> []"
  shows "map_of (shib_user_params (field_names e) shib_meta) =
           map_of shib_meta |` set (field_names e)
       \<and> (\<exists>rest. trace (snd (authenticate e remote_user shib_meta w)) =
              trace w @ Authenticate remote_user shib_meta
                # SetupUser (clean_username e remote_user)
                    (shib_user_params (field_names e) shib_meta) # rest
            \<and> (\<forall>n d. SetupUser n d \<notin> set rest)
            \<and> (\<forall>k p. UpdateUserParams k p \<in> set rest \<longrightarrow>
                  p = shib_user_params (field_names e) shib_meta)
            \<and> (\<forall>u. fst (authenticate e remote_user shib_meta w) = Inr (Some u) \<longrightarrow>
                  (\<exists>k. UpdateUserParams k (shib_user_params (field_names e) shib_meta)
                         \<in> set rest)))
       \<and> (create_unknown_user e
            \<and> filter (has_username (clean_username e remote_user)) (store w) = []
            \<and> ''username'' \<in> set (field_names e)
            \<and> map_of shib_meta ''username'' = Some v
            \<and> \<not> violates e
                   (new_row e (dict_update [(''username'', PyStr (clean_username e remote_user))]
                                 (shib_user_params (field_names e) shib_meta)) (store w))
                   (store w) \<longrightarrow>
            (\<exists>row \<in> set (store (snd (authenticate e remote_user shib_meta w))).
               pk row = fresh_pk (store w) \<and> map_of (attrs row) ''username'' = Some v))
       \<and> (create_unknown_user e
            \<and> filter (has_username (clean_username e remote_user)) (store w) = []
            \<and> violates e
                 (new_row e (dict_update [(''username'', PyStr (clean_username e remote_user))]
                               (shib_user_params (field_names e) shib_meta)) (store w))
                 (store w) \<longrightarrow>
            fst (authenticate e remote_user shib_meta w) = Inl IntegrityError
            \<and> store (snd (authenticate e remote_user shib_meta w)) = store w)
       \<and> (\<forall>u. filter (has_username (clean_username e remote_user)) (store w) = [u]
            \<and> ''username'' \<in> set (field_names e)
            \<and> map_of shib_meta ''username'' = Some v
            \<and> v \<noteq> PyStr (clean_username e remote_user)
            \<and> fst ` set (shib_user_params (field_names e) shib_meta) \<subseteq> fst ` set (attrs u)
            \<and> \<not> violates e
                   (u\<lparr>attrs := dict_update (attrs u)
                                  (shib_user_params (field_names e) shib_meta)\<rparr>)
                   (filter (\<lambda>r. pk r \<noteq> pk u) (store w)) \<longrightarrow>
            store (snd (authenticate e remote_user shib_meta w)) =
              write_row (u\<lparr>attrs := dict_update (attrs u)
                                       (shib_user_params (field_names e) shib_meta)\<rparr>) (store w)
            \<and> u\<lparr>attrs := dict_update (attrs u) (shib_user_params (field_names e) shib_meta)\<rparr>
                \<in> set (store (snd (authenticate e remote_user shib_meta w)))
            \<and> map_of (dict_update (attrs u) (shib_user_params (field_names e) shib_meta))
                ''username'' = Some v)
       \<and> (\<forall>u. filter (has_username (clean_username e remote_user)) (store w) = [u]
            \<and> ''username'' \<in> set (field_names e)
            \<and> map_of shib_meta ''username'' = Some v
            \<and> v \<noteq> PyStr (clean_username e remote_user)
            \<and> fst ` set (shib_user_params (field_names e) shib_meta) \<subseteq> fst ` set (attrs u)
            \<and> violates e
                 (u\<lparr>attrs := dict_update (attrs u)
                                (shib_user_params (field_names e) shib_meta)\<rparr>)
                 (filter (\<lambda>r. pk r \<noteq> pk u) (store w)) \<longrightarrow>
            fst (authenticate e remote_user shib_meta w) = Inl IntegrityError
            \<and> store (snd (authenticate e remote_user shib_meta w)) = store w)"
proof -
  let ?p = "shib_user_params (field_names e) shib_meta"
  let ?n = "clean_username e remote_user"
  have 1: "map_of ?p = map_of shib_meta |` set (field_names e)"
    by (rule map_of_shib_user_params)
  have 2: "\<exists>rest. trace (snd (authenticate e remote_user shib_meta w)) =
              trace w @ Authenticate remote_user shib_meta # SetupUser ?n ?p # rest
            \<and> (\<forall>n d. SetupUser n d \<notin> set rest)
            \<and> (\<forall>k p. UpdateUserParams k p \<in> set rest \<longrightarrow> p = ?p)
            \<and> (\<forall>u. fst (authenticate e remote_user shib_meta w) = Inr (Some u) \<longrightarrow>
                  (\<exists>k. UpdateUserParams k ?p \<in> set rest))"
    using assms by (rule authenticate_calls)
  have 3: "\<exists>row \<in> set (store (snd (authenticate e remote_user shib_meta w))).
      pk row = fresh_pk (store w) \<and> map_of (attrs row) ''username'' = Some v"
    if "create_unknown_user e \<and> filter (has_username ?n) (store w) = []
        \<and> ''username'' \<in> set (field_names e) \<and> map_of shib_meta ''username'' = Some v
        \<and> \<not> violates e (new_row e (dict_update [(''username'', PyStr ?n)] ?p) (store w)) (store w)"
    using assms that by (intro authenticate_creates) simp_all
  have 4: "fst (authenticate e remote_user shib_meta w) = Inl IntegrityError
      \<and> store (snd (authenticate e remote_user shib_meta w)) = store w"
    if "create_unknown_user e \<and> filter (has_username ?n) (store w) = []
        \<and> violates e (new_row e (dict_update [(''username'', PyStr ?n)] ?p) (store w)) (store w)"
    using assms that by (simp add: authenticate_create_refused)
  have 5: "store (snd (authenticate e remote_user shib_meta w)) =
        write_row (u\<lparr>attrs := dict_update (attrs u) ?p\<rparr>) (store w)
      \<and> u\<lparr>attrs := dict_update (attrs u) ?p\<rparr>
          \<in> set (store (snd (authenticate e remote_user shib_meta w)))
      \<and> map_of (dict_update (attrs u) ?p) ''username'' = Some v"
    if h: "filter (has_username ?n) (store w) = [u] \<and> ''username'' \<in> set (field_names e)
        \<and> map_of shib_meta ''username'' = Some v \<and> v \<noteq> PyStr ?n
        \<and> fst ` set ?p \<subseteq> fst ` set (attrs u)
        \<and> \<not> violates e (u\<lparr>attrs := dict_update (attrs u) ?p\<rparr>)
               (filter (\<lambda>r. pk r \<noteq> pk u) (store w))" for u
  proof -
    from h have a: "filter (has_username ?n) (store w) = [u]"
      and b: "''username'' \<in> set (field_names e)"
      and c: "map_of shib_meta ''username'' = Some v" and d: "v \<noteq> PyStr ?n"
      and f: "fst ` set ?p \<subseteq> fst ` set (attrs u)"
      and g: "\<not> violates e (u\<lparr>attrs := dict_update (attrs u) ?p\<rparr>)
               (filter (\<lambda>r. pk r \<noteq> pk u) (store w))"
      by simp_all
    note rec = authenticate_reconciles [OF assms a b c d f g]
    from rec(2) rec(3) rec(4) show ?thesis by simp
  qed
  have 6: "fst (authenticate e remote_user shib_meta w) = Inl IntegrityError
      \<and> store (snd (authenticate e remote_user shib_meta w)) = store w"
    if h: "filter (has_username ?n) (store w) = [u] \<and> ''username'' \<in> set (field_names e)
        \<and> map_of shib_meta ''username'' = Some v \<and> v \<noteq> PyStr ?n
        \<and> fst ` set ?p \<subseteq> fst ` set (attrs u)
        \<and> violates e (u\<lparr>attrs := dict_update (attrs u) ?p\<rparr>)
             (filter (\<lambda>r. pk r \<noteq> pk u) (store w))" for u
  proof -
    from h have a: "filter (has_username ?n) (store w) = [u]"
      and b: "''username'' \<in> set (field_names e)"
      and c: "map_of shib_meta ''username'' = Some v" and d: "v \<noteq> PyStr ?n"
      and f: "fst ` set ?p \<subseteq> fst ` set (attrs u)"
      and g: "violates e (u\<lparr>attrs := dict_update (attrs u) ?p\<rparr>)
               (filter (\<lambda>r. pk r \<noteq> pk u) (store w))"
      by simp_all
    note rec = authenticate_reconcile_refused [OF assms a b c d f g]
    from rec show ?thesis by simp
  qed
  from 1 2 3 4 5 6 show ?thesis by blast
qed

text \<open>
  C9 as stated fails where the table refuses the overwrite: the row found under
  \<^verbatim>\<open>u1@example.edu\<close> differs in its username from \<^verbatim>\<open>shib_meta['username']\<close>, which is \<^verbatim>\<open>u1\<close>,
  but another row is already named \<^verbatim>\<open>u1\<close>; \<^verbatim>\<open>save\<close> raises \<^verbatim>\<open>IntegrityError\<close> and the stored
  username is not overwritten.
\<close>

theorem authenticate_overwrite_counterexample:
  "filter (has_username (clean_username sample_env ''u1@example.edu'')) (store collision_world) =
     [sample_user]
   \<and> ''username'' \<in> set (field_names sample_env)
   \<and> map_of sample_meta ''username'' = Some (PyStr ''u1'')
   \<and> map_of (attrs sample_user) ''username'' = Some (PyStr ''u1@example.edu'')
   \<and> fst (authenticate sample_env ''u1@example.edu'' sample_meta collision_world) =
       Inl IntegrityError
   \<and> store (snd (authenticate sample_env ''u1@example.edu'' sample_meta collision_world)) =
       [sample_user, other_user]"
  by (simp add: sample_defs sample_meta_def has_username_def log_event_def authenticate_def
        shib_user_params_def List.map_filter_simps dict_update_def setup_user_def
        objects_get_or_create_def objects_get_def update_user_params_def
        getattr_def py_min_def user_save_def save_row_def write_row_def violates_def
        null_violation_def unique_violation_def Let_def)

theorem authenticate_field_values_witness:
  "shib_user_params (field_names sample_env) sample_meta =
     [(''username'', PyStr ''u1''), (''email'', PyStr ''u1@example.edu'')]
   \<and> (\<exists>row \<in> set (store (snd (authenticate sample_env ''u1@example.edu'' sample_meta
                                 empty_store_world))).
         pk row = 1 \<and> map_of (attrs row) ''username'' = Some (PyStr ''u1''))
   \<and> store (snd (authenticate sample_env ''u1@example.edu'' sample_meta sample_world)) =
       [sample_user\<lparr>attrs := [(''username'', PyStr ''u1''), (''email'', PyStr ''u1@example.edu'')]\<rparr>]
   \<and> fst (authenticate sample_env ''u1@example.edu'' sample_meta collision_world) =
       Inl IntegrityError"
proof -
  let ?p = "[(''username'', PyStr ''u1''), (''email'', PyStr ''u1@example.edu'')]"
  have r: "''u1@example.edu'' \<noteq> []" by simp
  have f: "field_names sample_env \<noteq> []" by (simp add: sample_defs)
  have p: "shib_user_params (field_names sample_env) sample_meta = ?p"
    by (simp add: sample_defs sample_meta_def shib_user_params_def List.map_filter_simps
        dict_update_def)
  have c: "create_unknown_user sample_env" by (simp add: sample_defs)
  have k: "''username'' \<in> set (field_names sample_env)" by (simp add: sample_defs)
  have v: "map_of sample_meta ''username'' = Some (PyStr ''u1'')"
    by (simp add: sample_meta_def)
  have d: "PyStr ''u1'' \<noteq> PyStr (clean_username sample_env ''u1@example.edu'')"
    by (simp add: sample_defs)
  have n: "filter (has_username (clean_username sample_env ''u1@example.edu''))
      (store empty_store_world) = []"
    by (simp add: sample_defs)
  have e: "filter (has_username (clean_username sample_env ''u1@example.edu''))
      (store sample_world) = [sample_user]"
    by (simp add: sample_defs has_username_def)
  have e': "filter (has_username (clean_username sample_env ''u1@example.edu''))
      (store collision_world) = [sample_user]"
    by (simp add: sample_defs has_username_def)
  have a: "fst ` set (shib_user_params (field_names sample_env) sample_meta)
      \<subseteq> fst ` set (attrs sample_user)"
    unfolding p by (simp add: sample_defs)
  have fp: "fresh_pk (store empty_store_world) = 1"
    by (simp add: sample_defs fresh_pk_def)
  have okc: "\<not> violates sample_env
      (new_row sample_env
         (dict_update [(''username'', PyStr (clean_username sample_env ''u1@example.edu''))]
            (shib_user_params (field_names sample_env) sample_meta))
         (store empty_store_world)) (store empty_store_world)"
    unfolding p
    by (simp add: sample_defs new_row_def dict_update_def violates_def null_violation_def
        unique_violation_def)
  have okr: "\<not> violates sample_env
      (sample_user\<lparr>attrs := dict_update (attrs sample_user)
         (shib_user_params (field_names sample_env) sample_meta)\<rparr>)
      (filter (\<lambda>r. pk r \<noteq> pk sample_user) (store sample_world))"
    unfolding p
    by (simp add: sample_defs dict_update_def violates_def null_violation_def
        unique_violation_def)
  have badr: "violates sample_env
      (sample_user\<lparr>attrs := dict_update (attrs sample_user)
         (shib_user_params (field_names sample_env) sample_meta)\<rparr>)
      (filter (\<lambda>r. pk r \<noteq> pk sample_user) (store collision_world))"
    unfolding p
    by (simp add: sample_defs dict_update_def violates_def unique_violation_def)
  have sv: "write_row (sample_user\<lparr>attrs := dict_update (attrs sample_user) ?p\<rparr>)
        (store sample_world) = [sample_user\<lparr>attrs := ?p\<rparr>]"
    by (simp add: sample_defs write_row_def dict_update_def)
  from authenticate_field_values [OF r f, of sample_meta empty_store_world "PyStr ''u1''"]
    c n k v okc
  have 1: "\<exists>row \<in> set (store (snd (authenticate sample_env ''u1@example.edu'' sample_meta
                                 empty_store_world))).
         pk row = 1 \<and> map_of (attrs row) ''username'' = Some (PyStr ''u1'')"
    unfolding fp by blast
  from authenticate_field_values [OF r f, of sample_meta sample_world "PyStr ''u1''"]
    e k v d a okr
  have "store (snd (authenticate sample_env ''u1@example.edu'' sample_meta sample_world)) =
      write_row (sample_user\<lparr>attrs := dict_update (attrs sample_user)
        (shib_user_params (field_names sample_env) sample_meta)\<rparr>) (store sample_world)"
    by blast
  then have 2: "store (snd (authenticate sample_env ''u1@example.edu'' sample_meta sample_world)) =
      [sample_user\<lparr>attrs := ?p\<rparr>]"
    unfolding p sv .
  from authenticate_field_values [OF r f, of sample_meta collision_world "PyStr ''u1''"]
    e' k v d a badr
  have 3: "fst (authenticate sample_env ''u1@example.edu'' sample_meta collision_world) =
      Inl IntegrityError"
    by blast
  from p 1 2 3 show ?thesis by blast
qed

end
